theory Spec2Isabelle
  imports Complex_Main
begin

section \<open>Delay strategy (delay.ts)\<close>

text \<open>
  A JavaScript \<open>number\<close> is modelled as a real: \<open>baseDelay * 2 ** (attempt - 1)\<close> is
  exact in binary floating point as long as it does not overflow, so the real product
  is what the code computes. \<open>NaN\<close> and the infinities are outside the model. The
  attempt is an integer, so \<open>2 ** (attempt - 1)\<close> is \<open>2 powi (attempt - 1)\<close>, also
  for attempts below one.
\<close>

datatype DelayStrategy =
    Immediate
  | ExponentialBackoff (baseDelayMs: real) (maxDelayMs: "real option")

text \<open>
  \<open>maxDelay ? Math.min(delay, maxDelay) : delay\<close>: the test is JavaScript truthiness,
  so an absent bound (\<open>None\<close>) and the bound \<open>0\<close> both take the second branch.
\<close>

definition calculateExponentialDelay :: "int \<Rightarrow> real \<Rightarrow> real option \<Rightarrow> real" where
  "calculateExponentialDelay attempt baseDelay maxDelay =
     (let delay = baseDelay * 2 powi (attempt - 1)
      in case maxDelay of
           None \<Rightarrow> delay
         | Some m \<Rightarrow> if m \<noteq> 0 then min delay m else delay)"

fun calculateDelay :: "DelayStrategy \<Rightarrow> int \<Rightarrow> real" where
  "calculateDelay Immediate attempt = 0"
| "calculateDelay (ExponentialBackoff base maxd) attempt =
     calculateExponentialDelay attempt base maxd"

section \<open>Results, settled promises and the world\<close>

text \<open>The two-outcome result of neverthrow.\<close>

datatype ('a, 'e) Result = Ok 'a | Err 'e

fun mapErr :: "('e \<Rightarrow> 'e2) \<Rightarrow> ('a, 'e) Result \<Rightarrow> ('a, 'e2) Result" where
  "mapErr mapper (Ok v) = Ok v"
| "mapErr mapper (Err e) = Err (mapper e)"

text \<open>
  How an awaited expression ends: it yields a value, it throws a
  \<open>ResultInterruption\<close> carrying \<open>err(e)\<close>, or it throws anything else.
\<close>

datatype ('a, 'e, 'x) settled = Fulfilled 'a | Interruption 'e | Fault 'x

text \<open>
  Everything the code can change. \<open>contexts\<close> holds the private field \<open>context\<close> of
  every \<open>ResultFlow\<close> object, by object identity; \<open>next_ref\<close> is the identity the next
  \<open>new ResultFlow\<close> gets. The field is declared without a value, so \<open>'c\<close> is the type of
  the values \<open>context\<close> has at run time, \<open>undefined\<close> included, and the field of an
  object that has not run yet holds what the world has for its identity. \<open>armed\<close> is the
  set of interval timers that are set and not cleared, \<open>next_interval\<close> the id the next
  \<open>setInterval\<close> returns. \<open>clock\<close> is the time spent in \<open>wait\<close>. \<open>user\<close> is the state of
  the user's own code (mocks, counters, repositories).
\<close>

record ('c, 'u) world =
  contexts :: "nat \<Rightarrow> 'c"
  next_ref :: nat
  armed :: "nat set"
  next_interval :: nat
  clock :: real
  user :: 'u

text \<open>
  An asynchronous (or effectful synchronous) computation: run to its end from a world,
  it leaves a settled outcome and a world. Evaluation is single threaded and a
  computation is run where it is awaited. For a promise that is passed around as a
  value, the computation is what awaiting it does.
\<close>

type_synonym ('a, 'e, 'x, 'w) promise = "'w \<Rightarrow> ('a, 'e, 'x) settled \<times> 'w"

definition resolve :: "'a \<Rightarrow> ('a, 'e, 'x, 'w) promise" where
  "resolve v w = (Fulfilled v, w)"

definition await :: "('a, 'e, 'x, 'w) promise \<Rightarrow> ('a \<Rightarrow> ('b, 'e, 'x, 'w) promise)
    \<Rightarrow> ('b, 'e, 'x, 'w) promise" where
  "await p k w =
     (case p w of
        (Fulfilled v, w') \<Rightarrow> k v w'
      | (Interruption e, w') \<Rightarrow> (Interruption e, w')
      | (Fault x, w') \<Rightarrow> (Fault x, w'))"

definition wait :: "real \<Rightarrow> (unit, 'e, 'x, ('c, 'u) world) promise" where
  "wait ms w = (Fulfilled (), w\<lparr>clock := clock w + ms\<rparr>)"

section \<open>The helpers handed to a builder\<close>

definition unwrap :: "('a, 'e) Result \<Rightarrow> ('a, 'e, 'x, 'w) promise" where
  "unwrap result w =
     (case result of
        Ok v \<Rightarrow> (Fulfilled v, w)
      | Err e \<Rightarrow> (Interruption e, w))"

definition PromiseHelpers_mapError ::
  "(('a, 'e2) Result, 'e, 'x, 'w) promise \<Rightarrow> ('e2 \<Rightarrow> 'e3)
    \<Rightarrow> (('a, 'e3) Result, 'e, 'x, 'w) promise" where
  "PromiseHelpers_mapError p mapper = await p (\<lambda>result. resolve (mapErr mapper result))"

text \<open>The two overloads of \<open>tryTo\<close>: without options, and with \<open>options.mapError\<close>.\<close>

definition tryTo :: "(('a, 'e) Result, 'e, 'x, 'w) promise \<Rightarrow> ('a, 'e, 'x, 'w) promise" where
  "tryTo result = await result unwrap"

definition tryTo_mapError ::
  "(('a, 'e2) Result, 'e, 'x, 'w) promise \<Rightarrow> ('e2 \<Rightarrow> 'e) \<Rightarrow> ('a, 'e, 'x, 'w) promise" where
  "tryTo_mapError result mapper = await (PromiseHelpers_mapError result mapper) unwrap"

definition fail :: "'e \<Rightarrow> ('a, 'e, 'x, 'w) promise" where
  "fail error w = (Interruption error, w)"

section \<open>The flow (class ResultFlow)\<close>

text \<open>
  A flow is an object with two fields of its own: the builder \<open>runPromise\<close>, fixed by
  the constructor, and \<open>context\<close>, which lives in the world under the object's identity
  \<open>ref\<close>. The helpers are the same closed functions for every flow, so a builder
  refers to \<open>tryTo\<close> and \<open>fail\<close> directly and takes the context only. The failure
  types of the flows that are composed are one type \<open>'e\<close>: a union \<open>E | E2\<close>, and the
  \<open>E2\<close> that \<open>mapError\<close>, \<open>orElse\<close> and a recovery action introduce, are instances
  of it. The generator front end (\<open>gen\<close> and the iterator) is not part of this
  development.
\<close>

record ('a, 'e, 'x, 'c, 'u) ResultFlow =
  runPromise :: "'c \<Rightarrow> ('a, 'e, 'x, ('c, 'u) world) promise"
  ref :: nat

text \<open>
  \<open>PolymorphicResult\<close>: what \<open>isResultFlow\<close> tells apart, a flow or a (possibly
  asynchronous) result.
\<close>

datatype ('a, 'e, 'x, 'c, 'u) PolymorphicResult =
    IsFlow "('a, 'e, 'x, 'c, 'u) ResultFlow"
  | NotFlow "(('a, 'e) Result, 'e, 'x, ('c, 'u) world) promise"

text \<open>The argument of \<open>from\<close> and \<open>lift\<close>: a result (plain or asynchronous), or a thunk of one.\<close>

datatype ('a, 'e, 'x, 'w) Liftable =
    Given "(('a, 'e) Result, 'e, 'x, 'w) promise"
  | Thunk "unit \<Rightarrow> (('a, 'e) Result, 'e, 'x, 'w) promise"

text \<open>\<open>of\<close> is \<open>new ResultFlow(builderFunction)\<close>: a new object, and nothing else.\<close>

definition of_flow :: "('c \<Rightarrow> ('a, 'e, 'x, ('c, 'u) world) promise) \<Rightarrow> ('c, 'u) world
    \<Rightarrow> ('a, 'e, 'x, 'c, 'u) ResultFlow \<times> ('c, 'u) world" where
  "of_flow builderFunction w =
     (\<lparr>runPromise = builderFunction, ref = next_ref w\<rparr>, w\<lparr>next_ref := Suc (next_ref w)\<rparr>)"

definition from_flow :: "('a, 'e, 'x, ('c, 'u) world) Liftable \<Rightarrow> ('c, 'u) world
    \<Rightarrow> ('a, 'e, 'x, 'c, 'u) ResultFlow \<times> ('c, 'u) world" where
  "from_flow v =
     of_flow (\<lambda>extras. case v of Thunk f \<Rightarrow> tryTo (f ()) | Given r \<Rightarrow> tryTo r)"

definition lift :: "('a, 'e, 'x, ('c, 'u) world) Liftable \<Rightarrow> ('c, 'u) world
    \<Rightarrow> ('a, 'e, 'x, 'c, 'u) ResultFlow \<times> ('c, 'u) world" where
  "lift v = from_flow v"

text \<open>
  \<open>run({context})\<close>: stores the context in the object's field, runs the builder, and
  turns an interruption into the failure it carries; any other fault goes through.
  \<open>run()\<close> is \<open>run({context: {}})\<close>.
\<close>

definition run :: "('a, 'e, 'x, 'c, 'u) ResultFlow \<Rightarrow> 'c
    \<Rightarrow> (('a, 'e) Result, 'e, 'x, ('c, 'u) world) promise" where
  "run this context w =
     (case runPromise this context (w\<lparr>contexts := (contexts w)(ref this := context)\<rparr>) of
        (Fulfilled v, w') \<Rightarrow> (Fulfilled (Ok v), w')
      | (Interruption e, w') \<Rightarrow> (Fulfilled (Err e), w')
      | (Fault x, w') \<Rightarrow> (Fault x, w'))"

section \<open>Combinators\<close>

text \<open>
  A callback is user code: called, it may change the world and may throw, so it is a
  computation too. \<open>tryTo_polymorphic\<close> is the expression
  \<open>isResultFlow(x) ? tryTo(x.run(extras)) : tryTo(x)\<close> of \<open>chain\<close> and \<open>orElse\<close>.
\<close>

definition tryTo_polymorphic :: "('a, 'e, 'x, 'c, 'u) PolymorphicResult \<Rightarrow> 'c
    \<Rightarrow> ('a, 'e, 'x, ('c, 'u) world) promise" where
  "tryTo_polymorphic r extras =
     (case r of IsFlow fl \<Rightarrow> tryTo (run fl extras) | NotFlow p \<Rightarrow> tryTo p)"

definition map_flow :: "('a \<Rightarrow> 'c \<Rightarrow> ('a2, 'e, 'x, ('c, 'u) world) promise)
    \<Rightarrow> ('a, 'e, 'x, 'c, 'u) ResultFlow \<Rightarrow> ('c, 'u) world
    \<Rightarrow> ('a2, 'e, 'x, 'c, 'u) ResultFlow \<times> ('c, 'u) world" where
  "map_flow f this =
     of_flow (\<lambda>extras. await (tryTo (run this extras)) (\<lambda>v. f v extras))"

definition mapError :: "('e \<Rightarrow> 'c \<Rightarrow> ('e, 'e, 'x, ('c, 'u) world) promise)
    \<Rightarrow> ('a, 'e, 'x, 'c, 'u) ResultFlow \<Rightarrow> ('c, 'u) world
    \<Rightarrow> ('a, 'e, 'x, 'c, 'u) ResultFlow \<times> ('c, 'u) world" where
  "mapError f this =
     of_flow (\<lambda>extras. await (run this extras) (\<lambda>result.
       case result of
         Err error \<Rightarrow> await (f error extras) fail
       | Ok v \<Rightarrow> resolve v))"

definition chain :: "('a \<Rightarrow> 'c \<Rightarrow> (('a2, 'e, 'x, 'c, 'u) PolymorphicResult, 'e, 'x, ('c, 'u) world) promise)
    \<Rightarrow> ('a, 'e, 'x, 'c, 'u) ResultFlow \<Rightarrow> ('c, 'u) world
    \<Rightarrow> ('a2, 'e, 'x, 'c, 'u) ResultFlow \<times> ('c, 'u) world" where
  "chain f this =
     of_flow (\<lambda>extras. await (tryTo (run this extras)) (\<lambda>result.
       await (f result extras) (\<lambda>fResult. tryTo_polymorphic fResult extras)))"

definition ifSuccess :: "('a \<Rightarrow> 'c \<Rightarrow> (unit, 'e, 'x, ('c, 'u) world) promise)
    \<Rightarrow> ('a, 'e, 'x, 'c, 'u) ResultFlow \<Rightarrow> ('c, 'u) world
    \<Rightarrow> ('a, 'e, 'x, 'c, 'u) ResultFlow \<times> ('c, 'u) world" where
  "ifSuccess f this =
     of_flow (\<lambda>context. await (tryTo (run this context)) (\<lambda>result.
       await (f result context) (\<lambda>_. resolve result)))"

definition ifFailure :: "('e \<Rightarrow> 'c \<Rightarrow> (unit, 'e, 'x, ('c, 'u) world) promise)
    \<Rightarrow> ('a, 'e, 'x, 'c, 'u) ResultFlow \<Rightarrow> ('c, 'u) world
    \<Rightarrow> ('a, 'e, 'x, 'c, 'u) ResultFlow \<times> ('c, 'u) world" where
  "ifFailure f this =
     of_flow (\<lambda>extras. await (run this extras) (\<lambda>result.
       case result of
         Err error \<Rightarrow> await (f error extras) (\<lambda>_. fail error)
       | Ok v \<Rightarrow> resolve v))"

definition orElse :: "('e \<Rightarrow> 'c \<Rightarrow> (('a, 'e, 'x, 'c, 'u) PolymorphicResult, 'e, 'x, ('c, 'u) world) promise)
    \<Rightarrow> ('a, 'e, 'x, 'c, 'u) ResultFlow \<Rightarrow> ('c, 'u) world
    \<Rightarrow> ('a, 'e, 'x, 'c, 'u) ResultFlow \<times> ('c, 'u) world" where
  "orElse alternative this =
     of_flow (\<lambda>extras. await (run this extras) (\<lambda>result.
       case result of
         Ok v \<Rightarrow> resolve v
       | Err error \<Rightarrow>
           await (alternative error extras) (\<lambda>alternativeResult.
             tryTo_polymorphic alternativeResult extras)))"

section \<open>Retry policy\<close>

text \<open>
  The \<open>for\<close> loop of the builder, from the counter \<open>i\<close> on; \<open>maxRetries\<close> is an
  integer. The last line of the equation is the statement after the loop.
\<close>

function retry_loop ::
  "('e \<Rightarrow> int \<Rightarrow> (unit, 'e, 'x, ('c, 'u) world) promise) option \<Rightarrow> ('e \<Rightarrow> bool) \<Rightarrow> int
    \<Rightarrow> DelayStrategy \<Rightarrow> ('a, 'e, 'x, 'c, 'u) ResultFlow \<Rightarrow> 'c \<Rightarrow> int
    \<Rightarrow> ('a, 'e, 'x, ('c, 'u) world) promise" where
  "retry_loop beforeRetry condition maxRetries retryStrategy this extras i =
     (if i < maxRetries then
        await (run this extras) (\<lambda>result.
          case result of
            Err error \<Rightarrow>
              if condition error then
                await (case beforeRetry of
                         Some b \<Rightarrow> b error (i + 1)
                       | None \<Rightarrow> resolve ())
                  (\<lambda>_. await (let delay = calculateDelay retryStrategy (i + 1)
                             in if delay > 0 then wait delay else resolve ())
                    (\<lambda>_. retry_loop beforeRetry condition maxRetries retryStrategy this extras
                           (i + 1)))
              else fail error
          | Ok v \<Rightarrow> resolve v)
      else tryTo (run this extras))"
  by pat_completeness auto
termination
  by (relation "measure (\<lambda>(b, c, m, s, t, x, i). nat (m - i))") auto

declare retry_loop.simps [simp del]

text \<open>The defaults of the destructured options: an absent option is \<open>None\<close>.\<close>

definition retryPolicy ::
  "('e \<Rightarrow> int \<Rightarrow> (unit, 'e, 'x, ('c, 'u) world) promise) option \<Rightarrow> ('e \<Rightarrow> bool) option
    \<Rightarrow> int option \<Rightarrow> DelayStrategy option \<Rightarrow> ('a, 'e, 'x, 'c, 'u) ResultFlow
    \<Rightarrow> ('c, 'u) world \<Rightarrow> ('a, 'e, 'x, 'c, 'u) ResultFlow \<times> ('c, 'u) world" where
  "retryPolicy beforeRetry condition maxRetries retryStrategy this =
     of_flow (\<lambda>extras.
       retry_loop beforeRetry
         (case condition of None \<Rightarrow> (\<lambda>_. True) | Some c \<Rightarrow> c)
         (case maxRetries of None \<Rightarrow> 1 | Some n \<Rightarrow> n)
         (case retryStrategy of None \<Rightarrow> Immediate | Some s \<Rightarrow> s)
         this extras 0)"

section \<open>Periodic execution\<close>

text \<open>
  \<open>setInterval\<close> arms a timer and returns its id; the handler is not stored in the
  world: \<open>interval_fires\<close> is the scheduler reaching the interval of a timer, and starts
  the handler only while the timer is armed.
\<close>

definition setInterval :: "('c, 'u) world \<Rightarrow> nat \<times> ('c, 'u) world" where
  "setInterval w =
     (next_interval w,
      w\<lparr>armed := insert (next_interval w) (armed w), next_interval := Suc (next_interval w)\<rparr>)"

definition clearInterval :: "nat \<Rightarrow> (unit, 'e, 'x, ('c, 'u) world) promise" where
  "clearInterval intervalId w = (Fulfilled (), w\<lparr>armed := armed w - {intervalId}\<rparr>)"

definition interval_fires :: "nat \<Rightarrow> (unit, 'e, 'x, ('c, 'u) world) promise
    \<Rightarrow> (unit, 'e, 'x, ('c, 'u) world) promise" where
  "interval_fires intervalId handler w =
     (if intervalId \<in> armed w then handler w else (Fulfilled (), w))"

datatype 'e InterruptionParam =
    Failure 'e "'e option"
  | Aborted

text \<open>
  The handler given to \<open>setInterval\<close> is an \<open>async\<close> function with two \<open>await\<close>s: it
  is suspended while the receiver is evaluated and, when a \<open>recoveryAction\<close> is given,
  while the recovery is evaluated, and other timer events and calls of \<open>interrupt\<close> can
  come in between. Its parts are defined one by one, so that each can be looked at in
  the world it finds when the handler gets there.

  \<open>recover\<close> is \<open>recoveryResult\<close>: the call of \<open>recoveryAction\<close>, when there is one, and
  the evaluation of what it returns. \<open>stop_unless_recovered\<close> is the last \<open>if\<close> of the
  handler, after the second \<open>await\<close>. \<open>handle_result\<close> is the handler after
  \<open>const result = await this.run({context: this.context})\<close>.
\<close>

definition recover ::
  "('e \<Rightarrow> (('b, 'e, 'x, 'c, 'u) PolymorphicResult, 'e, 'x, ('c, 'u) world) promise) option
    \<Rightarrow> ('a, 'e, 'x, 'c, 'u) ResultFlow \<Rightarrow> 'e
    \<Rightarrow> (('b, 'e) Result option, 'e, 'x, ('c, 'u) world) promise" where
  "recover recoveryAction this error =
     (case recoveryAction of
        None \<Rightarrow> resolve None
      | Some action \<Rightarrow>
          await (action error) (\<lambda>recoveryResultPromise.
            await (case recoveryResultPromise of
                     IsFlow fl \<Rightarrow> (\<lambda>w. run fl (contexts w (ref this)) w)
                   | NotFlow p \<Rightarrow> p)
              (\<lambda>r. resolve (Some r))))"

definition stop_unless_recovered ::
  "('e InterruptionParam \<Rightarrow> (unit, 'e, 'x, ('c, 'u) world) promise) option \<Rightarrow> nat \<Rightarrow> 'e
    \<Rightarrow> ('b, 'e) Result option \<Rightarrow> (unit, 'e, 'x, ('c, 'u) world) promise" where
  "stop_unless_recovered onInterruption intervalId error recoveryResult =
     (case recoveryResult of
        Some (Ok _) \<Rightarrow> resolve ()
      | Some (Err e2) \<Rightarrow>
          await (clearInterval intervalId) (\<lambda>_.
            case onInterruption of
              Some callback \<Rightarrow> callback (Failure error (Some e2))
            | None \<Rightarrow> resolve ())
      | None \<Rightarrow>
          await (clearInterval intervalId) (\<lambda>_.
            case onInterruption of
              Some callback \<Rightarrow> callback (Failure error None)
            | None \<Rightarrow> resolve ()))"

definition handle_result ::
  "('e \<Rightarrow> (('b, 'e, 'x, 'c, 'u) PolymorphicResult, 'e, 'x, ('c, 'u) world) promise) option
    \<Rightarrow> ('e InterruptionParam \<Rightarrow> (unit, 'e, 'x, ('c, 'u) world) promise) option
    \<Rightarrow> ('a, 'e, 'x, 'c, 'u) ResultFlow \<Rightarrow> nat \<Rightarrow> ('a, 'e) Result
    \<Rightarrow> (unit, 'e, 'x, ('c, 'u) world) promise" where
  "handle_result recoveryAction onInterruption this intervalId result =
     (case result of
        Ok _ \<Rightarrow> resolve ()
      | Err error \<Rightarrow>
          await (recover recoveryAction this error)
            (stop_unless_recovered onInterruption intervalId error))"

text \<open>The whole handler: the evaluation of the receiver, then the rest.\<close>

definition interval_handler ::
  "('e \<Rightarrow> (('b, 'e, 'x, 'c, 'u) PolymorphicResult, 'e, 'x, ('c, 'u) world) promise) option
    \<Rightarrow> ('e InterruptionParam \<Rightarrow> (unit, 'e, 'x, ('c, 'u) world) promise) option
    \<Rightarrow> ('a, 'e, 'x, 'c, 'u) ResultFlow \<Rightarrow> nat
    \<Rightarrow> (unit, 'e, 'x, ('c, 'u) world) promise" where
  "interval_handler recoveryAction onInterruption this intervalId =
     await (\<lambda>w. run this (contexts w (ref this)) w)
       (handle_result recoveryAction onInterruption this intervalId)"

record ('e, 'x, 'c, 'u) PeriodicHandle =
  interrupt :: "(unit, 'e, 'x, ('c, 'u) world) promise"

definition runPeriodically ::
  "('e \<Rightarrow> (('b, 'e, 'x, 'c, 'u) PolymorphicResult, 'e, 'x, ('c, 'u) world) promise) option
    \<Rightarrow> ('e InterruptionParam \<Rightarrow> (unit, 'e, 'x, ('c, 'u) world) promise) option
    \<Rightarrow> real \<Rightarrow> ('a, 'e, 'x, 'c, 'u) ResultFlow \<Rightarrow> ('c, 'u) world
    \<Rightarrow> ('e, 'x, 'c, 'u) PeriodicHandle \<times> ('c, 'u) world" where
  "runPeriodically recoveryAction onInterruption interval this w =
     (case setInterval w of
        (intervalId, w') \<Rightarrow>
          (\<lparr>interrupt =
              await (clearInterval intervalId) (\<lambda>_.
                case onInterruption of
                  Some callback \<Rightarrow> callback Aborted
                | None \<Rightarrow> resolve ())\<rparr>,
           w'))"

text \<open>
  The timer of the session that \<open>runPeriodically\<close> started in \<open>w\<close> has the id
  \<open>next_interval w\<close>. \<open>tick\<close> is that timer reaching its interval, together with the
  whole handler it starts: the course of a tick whose handler has settled when the next
  timer event or call of \<open>interrupt\<close> comes, as it is under the mocked timers of the test
  suite. A handler that is still suspended when the next event comes resumes later,
  with \<open>handle_result\<close> or \<open>stop_unless_recovered\<close>, in the world it finds then.
\<close>

definition tick ::
  "('e \<Rightarrow> (('b, 'e, 'x, 'c, 'u) PolymorphicResult, 'e, 'x, ('c, 'u) world) promise) option
    \<Rightarrow> ('e InterruptionParam \<Rightarrow> (unit, 'e, 'x, ('c, 'u) world) promise) option
    \<Rightarrow> ('a, 'e, 'x, 'c, 'u) ResultFlow \<Rightarrow> nat
    \<Rightarrow> (unit, 'e, 'x, ('c, 'u) world) promise" where
  "tick recoveryAction onInterruption this intervalId =
     interval_fires intervalId (interval_handler recoveryAction onInterruption this intervalId)"

section \<open>Observing the receiver of a combinator\<close>

text \<open>
  Code can tell two objects apart, but it cannot read which identity the next
  \<open>new ResultFlow\<close> gets. \<open>same_but_identities n\<close> relates two worlds that differ at
  most in the identities given out from \<open>n\<close> on: in the counter, and in the fields of
  the objects that were made with these identities. The timers, the clock, the user's
  state and the field \<open>context\<close> of every object older than \<open>n\<close> are the same.
\<close>

definition same_but_identities :: "nat \<Rightarrow> ('c, 'u) world \<Rightarrow> ('c, 'u) world \<Rightarrow> bool" where
  "same_but_identities n w w' \<longleftrightarrow>
     n \<le> next_ref w \<and> n \<le> next_ref w'
     \<and> (\<forall>r \<in> {..<n}. contexts w r = contexts w' r)
     \<and> armed w = armed w' \<and> next_interval w = next_interval w'
     \<and> clock w = clock w' \<and> user w = user w'"

text \<open>
  A computation treats such worlds alike when, started in two of them, it settles with
  the same outcome and leaves two of them again. This is a property of a computation,
  not code of the library: it says that the computation does not depend on which
  identities the objects it makes are given.
\<close>

definition treats_alike :: "nat \<Rightarrow> ('a, 'e, 'x, ('c, 'u) world) promise \<Rightarrow> bool" where
  "treats_alike n p \<longleftrightarrow>
     (\<forall>w w'. same_but_identities n w w' \<longrightarrow>
        fst (p w) = fst (p w') \<and> same_but_identities n (snd (p w)) (snd (p w')))"

text \<open>\<open>await this.run({context})\<close>, \<open>k\<close> times in a row: the outcomes, and the world left.\<close>

fun run_times :: "nat \<Rightarrow> ('a, 'e, 'x, 'c, 'u) ResultFlow \<Rightarrow> 'c \<Rightarrow> ('c, 'u) world
    \<Rightarrow> (('a, 'e) Result, 'e, 'x) settled list \<times> ('c, 'u) world" where
  "run_times 0 this context w = ([], w)"
| "run_times (Suc k) this context w =
     (case run this context w of
        (outcome, w') \<Rightarrow>
          (case run_times k this context w' of
             (outcomes, w'') \<Rightarrow> (outcome # outcomes, w'')))"

section \<open>Observing a retried evaluation\<close>

text \<open>
  What an observer of a retried flow sees: the receiver evaluated and failing with an
  error, and \<open>beforeRetry\<close> called with an error and a retry number. \<open>retry_trace i es\<close>
  is the trace of attempts that fail with the errors \<open>es\<close> in turn, each but the last
  followed by its \<open>beforeRetry\<close>, numbered from \<open>i\<close>.
\<close>

datatype 'e RetryEvent = Attempt 'e | BeforeRetry 'e int

fun retry_trace :: "int \<Rightarrow> 'e list \<Rightarrow> 'e RetryEvent list" where
  "retry_trace i [] = []"
| "retry_trace i [e] = [Attempt e]"
| "retry_trace i (e # e' # es) = Attempt e # BeforeRetry e i # retry_trace (i + 1) (e' # es)"

section \<open>Test doubles\<close>

text \<open>
  The mock functions of the test suite, for the concrete runs below: contexts are
  numbers, failures and faults are strings. A world where nothing has happened yet:
\<close>

definition world0 :: "'u \<Rightarrow> (nat, 'u) world" where
  "world0 u =
     \<lparr>contexts = (\<lambda>_. 0), next_ref = 0, armed = {}, next_interval = 0, clock = 0, user = u\<rparr>"

text \<open>A call-count probe: the user state is the number of calls.\<close>

definition probe :: "'r \<Rightarrow> ('r, string, string, (nat, nat) world) promise" where
  "probe r w = (Fulfilled r, w\<lparr>user := Suc (user w)\<rparr>)"

definition add10 :: "nat \<Rightarrow> nat \<Rightarrow> (nat, string, string, (nat, nat) world) promise" where
  "add10 v c = probe (v + 10)"

definition add10_result :: "nat \<Rightarrow> nat
    \<Rightarrow> ((nat, string, string, nat, nat) PolymorphicResult, string, string, (nat, nat) world) promise" where
  "add10_result v c = probe (NotFlow (resolve (Ok (v + 10))))"

definition effect :: "nat \<Rightarrow> nat \<Rightarrow> (unit, string, string, (nat, nat) world) promise" where
  "effect v c = probe ()"

definition one_flow :: "(nat, nat) world" where
  "one_flow =
     \<lparr>contexts = (\<lambda>_. 0), next_ref = 1, armed = {}, next_interval = 0, clock = 0, user = 0\<rparr>"

definition failing_flow :: "(nat, string, string, nat, nat) ResultFlow" where
  "failing_flow = fst (of_flow (\<lambda>c. fail ''error'') (world0 0))"

definition counted_flow :: "(nat, string, string, nat, nat) ResultFlow" where
  "counted_flow = fst (from_flow (Thunk (\<lambda>_. probe (Ok 10))) (world0 0))"

text \<open>
  The callback \<open>(n) => ResultFlow.of(async () => n + 10)\<close> of the tests of \<open>chain\<close>, and
  the flow \<open>ResultFlow.from(...).chain(add10)\<close>: each of its evaluations makes a flow.
\<close>

definition add10_flow :: "nat \<Rightarrow> nat
    \<Rightarrow> ((nat, string, string, nat, nat) PolymorphicResult, string, string, (nat, nat) world) promise" where
  "add10_flow n c w =
     (case of_flow (\<lambda>_. resolve (n + 10)) w of (fl, w') \<Rightarrow> (Fulfilled (IsFlow fl), w'))"

definition chained_flow :: "(nat, string, string, nat, nat) ResultFlow" where
  "chained_flow = fst (chain add10_flow counted_flow one_flow)"

definition two_flows :: "(nat, nat) world" where
  "two_flows =
     \<lparr>contexts = (\<lambda>_. 0), next_ref = 2, armed = {}, next_interval = 0, clock = 0, user = 0\<rparr>"

text \<open>An action that always fails, with the error its script gives for the number of
  earlier attempts, and a \<open>beforeRetry\<close> mock; both log what they see.\<close>

definition failing_action :: "(nat \<Rightarrow> string)
    \<Rightarrow> ((nat, string) Result, string, string, (nat, string RetryEvent list) world) promise" where
  "failing_action script w =
     (let e = script (length [x \<leftarrow> user w. case x of Attempt _ \<Rightarrow> True | BeforeRetry _ _ \<Rightarrow> False])
      in (Fulfilled (Err e), w\<lparr>user := user w @ [Attempt e]\<rparr>))"

definition beforeRetryMock :: "string \<Rightarrow> int
    \<Rightarrow> (unit, string, string, (nat, string RetryEvent list) world) promise" where
  "beforeRetryMock e i w = (Fulfilled (), w\<lparr>user := user w @ [BeforeRetry e i]\<rparr>)"

definition no_beforeRetry :: "(string \<Rightarrow> int
    \<Rightarrow> (unit, string, string, (nat, string RetryEvent list) world) promise) option" where
  "no_beforeRetry = None"

definition version_then_error :: "nat \<Rightarrow> string" where
  "version_then_error k = (if k < 2 then ''version-error'' else ''error'')"

text \<open>The mocks of the periodic tests: the action logs the context it runs with and
  answers by its script; the callbacks log their arguments.\<close>

datatype MockCall =
    ActionCall nat
  | RecoveryCall string
  | InterruptionCall "string InterruptionParam"

definition mockAction :: "(nat \<Rightarrow> (unit, string) Result) \<Rightarrow> nat
    \<Rightarrow> ((unit, string) Result, string, string, (nat, MockCall list) world) promise" where
  "mockAction script context w =
     (Fulfilled (script (length [c \<leftarrow> user w. case c of ActionCall _ \<Rightarrow> True | _ \<Rightarrow> False])),
      w\<lparr>user := user w @ [ActionCall context]\<rparr>)"

definition mock_flow :: "(nat \<Rightarrow> (unit, string) Result)
    \<Rightarrow> (unit, string, string, nat, MockCall list) ResultFlow" where
  "mock_flow script = fst (of_flow (\<lambda>context. tryTo (mockAction script context)) (world0 []))"

definition mockOnInterruption :: "string InterruptionParam
    \<Rightarrow> (unit, string, string, (nat, MockCall list) world) promise" where
  "mockOnInterruption param w = (Fulfilled (), w\<lparr>user := user w @ [InterruptionCall param]\<rparr>)"

definition mockRecoveryAction :: "(unit, string) Result \<Rightarrow> string
    \<Rightarrow> ((unit, string, string, nat, MockCall list) PolymorphicResult, string, string,
        (nat, MockCall list) world) promise" where
  "mockRecoveryAction r e w =
     (Fulfilled (NotFlow (resolve r)), w\<lparr>user := user w @ [RecoveryCall e]\<rparr>)"

definition mockRecoveryFlow :: "(unit, string) Result \<Rightarrow> string
    \<Rightarrow> ((unit, string, string, nat, MockCall list) PolymorphicResult, string, string,
        (nat, MockCall list) world) promise" where
  "mockRecoveryFlow r e w =
     (case from_flow (Thunk (\<lambda>_. resolve r)) w of
        (fl, w') \<Rightarrow> (Fulfilled (IsFlow fl), w'\<lparr>user := user w' @ [RecoveryCall e]\<rparr>))"

definition no_recovery :: "(string
    \<Rightarrow> ((unit, string, string, nat, MockCall list) PolymorphicResult, string, string,
        (nat, MockCall list) world) promise) option" where
  "no_recovery = None"

definition no_callback :: "(string InterruptionParam
    \<Rightarrow> (unit, string, string, (nat, MockCall list) world) promise) option" where
  "no_callback = None"

definition succeeds_twice :: "nat \<Rightarrow> (unit, string) Result" where
  "succeeds_twice k = (if k < 2 then Ok () else Err ''error'')"

definition always_fails :: "nat \<Rightarrow> (unit, string) Result" where
  "always_fails k = Err ''error''"

definition always_succeeds :: "nat \<Rightarrow> (unit, string) Result" where
  "always_succeeds k = Ok ()"

text \<open>A session on the flow with identity \<open>0\<close>, whose last run had the context \<open>7\<close>:
  the timer \<open>0\<close> is armed and nothing is logged yet.\<close>

definition started :: "(nat, MockCall list) world" where
  "started =
     \<lparr>contexts = (\<lambda>_. 0)(0 := 7), next_ref = 1, armed = {0}, next_interval = 1, clock = 0,
      user = []\<rparr>"

section \<open>Basic facts\<close>

lemmas eval_defs = run_def of_flow_def from_flow_def retryPolicy_def retry_loop.simps await_def
  tryTo_def unwrap_def resolve_def fail_def wait_def Let_def map_flow_def chain_def ifSuccess_def
  world0_def probe_def failing_action_def beforeRetryMock_def version_then_error_def

lemmas periodic_defs = tick_def interval_fires_def interval_handler_def handle_result_def
  recover_def stop_unless_recovered_def
  runPeriodically_def setInterval_def clearInterval_def mock_flow_def mockAction_def
  mockOnInterruption_def mockRecoveryAction_def mockRecoveryFlow_def succeeds_twice_def
  always_fails_def always_succeeds_def started_def

lemma await_Fulfilled: "p w = (Fulfilled v, w') \<Longrightarrow> await p k w = k v w'"
  by (simp add: await_def)

lemma await_Interruption: "p w = (Interruption e, w') \<Longrightarrow> await p k w = (Interruption e, w')"
  by (simp add: await_def)

lemma await_Fault: "p w = (Fault x, w') \<Longrightarrow> await p k w = (Fault x, w')"
  by (simp add: await_def)

lemma tryTo_Ok: "p w = (Fulfilled (Ok v), w') \<Longrightarrow> tryTo p w = (Fulfilled v, w')"
  by (simp add: tryTo_def await_def unwrap_def)

lemma tryTo_Err: "p w = (Fulfilled (Err e), w') \<Longrightarrow> tryTo p w = (Interruption e, w')"
  by (simp add: tryTo_def await_def unwrap_def)

lemma tryTo_mapError_Err:
  "p w = (Fulfilled (Err e), w') \<Longrightarrow> tryTo_mapError p m w = (Interruption (m e), w')"
  by (simp add: tryTo_mapError_def PromiseHelpers_mapError_def await_def unwrap_def resolve_def)

lemma run_of_flow:
  "run (fst (of_flow b w0)) c w =
     (case b c (w\<lparr>contexts := (contexts w)(next_ref w0 := c)\<rparr>) of
        (Fulfilled v, w') \<Rightarrow> (Fulfilled (Ok v), w')
      | (Interruption e, w') \<Rightarrow> (Fulfilled (Err e), w')
      | (Fault x, w') \<Rightarrow> (Fault x, w'))"
  by (simp add: run_def of_flow_def)

lemma run_Fulfilled:
  "runPromise fl c (w\<lparr>contexts := (contexts w)(ref fl := c)\<rparr>) = (Fulfilled v, w')
   \<Longrightarrow> run fl c w = (Fulfilled (Ok v), w')"
  by (simp add: run_def)

lemma run_Interruption:
  "runPromise fl c (w\<lparr>contexts := (contexts w)(ref fl := c)\<rparr>) = (Interruption e, w')
   \<Longrightarrow> run fl c w = (Fulfilled (Err e), w')"
  by (simp add: run_def)

lemma run_never_interrupted: "fst (run fl c w) \<noteq> Interruption e"
  by (simp add: run_def split: prod.splits settled.splits)

lemma snd_of_flow: "snd (of_flow b w) = w\<lparr>next_ref := Suc (next_ref w)\<rparr>"
  by (simp add: of_flow_def)

section \<open>Properties of the delay strategy\<close>

lemma calculateDelay_uncapped:
  "calculateDelay (ExponentialBackoff base None) n = base * 2 powi (n - 1)"
  by (simp add: calculateExponentialDelay_def)

lemma calculateDelay_capped:
  "m \<noteq> 0 \<Longrightarrow>
   calculateDelay (ExponentialBackoff base (Some m)) n = min (base * 2 powi (n - 1)) m"
  by (simp add: calculateExponentialDelay_def)

lemma calculateDelay_zero_max:
  "calculateDelay (ExponentialBackoff base (Some 0)) n = base * 2 powi (n - 1)"
  by (simp add: calculateExponentialDelay_def)

lemma calculateDelay_nonneg:
  assumes "0 \<le> base" and "\<forall>m. maxd = Some m \<longrightarrow> 0 \<le> m"
  shows "0 \<le> calculateDelay (ExponentialBackoff base maxd) n"
  using assms
  by (cases maxd) (simp_all add: calculateExponentialDelay_def Let_def)

lemma backoff_mono:
  fixes base :: real
  assumes "0 \<le> base" and "n \<le> n'"
  shows "base * 2 powi (n - 1) \<le> base * 2 powi (n' - 1)"
proof -
  have "(2::real) powi (n - 1) \<le> 2 powi (n' - 1)"
    using assms(2) by (intro power_int_increasing) simp_all
  then show ?thesis
    using assms(1) by (rule mult_left_mono)
qed

lemma calculateDelay_mono:
  assumes "0 \<le> base" and "n \<le> n'"
  shows "calculateDelay (ExponentialBackoff base maxd) n
           \<le> calculateDelay (ExponentialBackoff base maxd) n'"
  using backoff_mono[OF assms]
  by (cases maxd) (auto simp: calculateExponentialDelay_def Let_def min_def)

lemma calculateDelay_constant_after_cap:
  assumes "m \<noteq> 0" and "m \<le> base * 2 powi (n - 1)" and "0 \<le> base" and "n \<le> n'"
  shows "calculateDelay (ExponentialBackoff base (Some m)) n' = m"
  using backoff_mono[OF assms(3,4)] assms(1,2)
  by (simp add: calculateExponentialDelay_def Let_def min_def)

text \<open>
  Claim C6. For every attempt \<open>n \<ge> 1\<close>, \<open>calculateDelay(Immediate, n) = 0\<close>, and the
  delay of \<open>ExponentialBackoff(base, max)\<close> is \<open>min(base * 2^(n-1), max)\<close> whenever
  \<open>max\<close> is present, the bound \<open>0\<close> included, and \<open>base * 2^(n-1)\<close> when it is absent.
  The code tests the bound for truthiness, so a bound of \<open>0\<close> is not applied: at
  \<open>baseDelayMs = 100\<close>, \<open>maxDelayMs = 0\<close>, attempt \<open>1\<close> it returns \<open>100\<close>, where the
  claim gives \<open>min(100, 0) = 0\<close>. For every other bound, and without one, the lemmas
  above give the formula, the sign and the monotonicity of the claim.
\<close>

theorem calculateDelay_zero_max_not_capped:
  "calculateDelay (ExponentialBackoff 100 (Some 0)) 1 = 100
   \<and> calculateDelay (ExponentialBackoff 100 (Some 0)) 1 \<noteq> min (100 * 2 powi (1 - 1)) 0"
  by (simp add: calculateExponentialDelay_def)

section \<open>Properties of interruption and evaluation\<close>

text \<open>
  Claim C1. A builder that, after any steps \<open>pre\<close>, applies \<open>tryTo\<close> to a failing
  result (also with \<open>mapError\<close>) or calls \<open>fail\<close>, and then goes on with \<open>k\<close>: \<open>run\<close>
  resolves to the failure carrying that error (transformed by \<open>mapError\<close> when given),
  in the world the failing step left, whatever \<open>k\<close> is, so nothing of \<open>k\<close> has run.
  And when a builder ends with a fault that is not an interruption, \<open>run\<close> rejects with
  that fault.
\<close>

theorem interruption_aborts_builder:
  assumes "pre extras (w\<lparr>contexts := (contexts w)(next_ref w0 := extras)\<rparr>) = (Fulfilled y, w1)"
  shows "(p y w1 = (Fulfilled (Err e), w2) \<longrightarrow>
            run (fst (of_flow (\<lambda>c. await (pre c) (\<lambda>v. await (tryTo (p v)) (k v))) w0)) extras w
              = (Fulfilled (Err e), w2))
       \<and> (p' y w1 = (Fulfilled (Err e'), w2) \<longrightarrow>
            run (fst (of_flow (\<lambda>c. await (pre c) (\<lambda>v. await (tryTo_mapError (p' v) m) (k v))) w0))
                extras w
              = (Fulfilled (Err (m e')), w2))
       \<and> run (fst (of_flow (\<lambda>c. await (pre c) (\<lambda>v. await (fail (g v)) (k' v))) w0)) extras w
              = (Fulfilled (Err (g y)), w1)
       \<and> (b extras (w\<lparr>contexts := (contexts w)(next_ref w0 := extras)\<rparr>) = (Fault x, w3) \<longrightarrow>
            run (fst (of_flow b w0)) extras w = (Fault x, w3))"
  using assms
  by (simp add: run_of_flow await_Fulfilled await_Interruption tryTo_Err tryTo_mapError_Err
      fail_def)

text \<open>
  A run of it: the step before the failure is a probe, and so is the step after it. Each
  flow fails (or rejects, when \<open>tryTo\<close> is given a promise that rejects) with one call
  counted, the one before the failing step.
\<close>

theorem interruption_aborts_builder_witness:
  "probe () ((world0 (0::nat))\<lparr>contexts := (\<lambda>_. 0)(0 := (7::nat))\<rparr>)
       = (Fulfilled (), (world0 1)\<lparr>contexts := (\<lambda>_. 0)(0 := 7)\<rparr>)
   \<and> run (fst (of_flow (\<lambda>c. await (probe ()) (\<lambda>v. await (tryTo (resolve (Err ''not-found'')))
                                                  (\<lambda>r::nat. probe ''ok''))) (world0 0))) 7 (world0 0)
       = (Fulfilled (Err ''not-found''), (world0 1)\<lparr>contexts := (\<lambda>_. 0)(0 := 7)\<rparr>)
   \<and> run (fst (of_flow (\<lambda>c. await (probe ())
                  (\<lambda>v. await (tryTo_mapError (resolve (Err (404::nat))) (\<lambda>n. ''not-found''))
                         (\<lambda>r::nat. probe ''ok''))) (world0 0))) 7 (world0 0)
       = (Fulfilled (Err ''not-found''), (world0 1)\<lparr>contexts := (\<lambda>_. 0)(0 := 7)\<rparr>)
   \<and> run (fst (of_flow (\<lambda>c. await (probe ()) (\<lambda>v. await (fail ''early-fail'')
                                                  (\<lambda>r::nat. probe ''ok''))) (world0 0))) 7 (world0 0)
       = (Fulfilled (Err ''early-fail''), (world0 1)\<lparr>contexts := (\<lambda>_. 0)(0 := 7)\<rparr>)
   \<and> run (fst (of_flow (\<lambda>c. await (probe ())
                  (\<lambda>v. tryTo (\<lambda>w. (Fault ''error description''
                                     :: ((nat, string) Result, string, string) settled, w))))
             (world0 0))) 7 (world0 0)
       = (Fault ''error description'', (world0 1)\<lparr>contexts := (\<lambda>_. 0)(0 := 7)\<rparr>)"
proof -
  let ?w1 = "(world0 (1::nat))\<lparr>contexts := (\<lambda>_. 0)(0 := (7::nat))\<rparr>"
  have pre: "(\<lambda>c. probe ()) (7::nat)
               ((world0 (0::nat))\<lparr>contexts := (contexts (world0 (0::nat)))(next_ref (world0 (0::nat)) := 7)\<rparr>)
             = (Fulfilled (), ?w1)"
    by (simp add: probe_def world0_def)
  have p: "(\<lambda>v. resolve (Err ''not-found'')) () ?w1
             = (Fulfilled (Err ''not-found'' :: (nat, string) Result) :: (_, string, string) settled, ?w1)"
    by (simp add: resolve_def)
  have p': "(\<lambda>v. resolve (Err (404::nat))) () ?w1
             = (Fulfilled (Err 404 :: (nat, nat) Result) :: (_, string, string) settled, ?w1)"
    by (simp add: resolve_def)
  have b: "(\<lambda>c. await (probe ())
                 (\<lambda>v. tryTo (\<lambda>w. (Fault ''error description''
                                    :: ((nat, string) Result, string, string) settled, w)))) 7
               ((world0 (0::nat))\<lparr>contexts := (contexts (world0 (0::nat)))(next_ref (world0 (0::nat)) := 7)\<rparr>)
             = (Fault ''error description'', ?w1)"
    by (simp add: await_def tryTo_def probe_def world0_def)
  have pre': "probe () ((world0 (0::nat))\<lparr>contexts := (\<lambda>_. 0)(0 := (7::nat))\<rparr>) = (Fulfilled (), ?w1)"
    by (simp add: probe_def world0_def)
  from interruption_aborts_builder[of "\<lambda>c. probe ()" 7 "world0 0" "world0 (0::nat)" "()" ?w1
      "\<lambda>v. resolve (Err ''not-found'')" "''not-found''" ?w1 "\<lambda>v (r::nat). probe ''ok''"
      "\<lambda>v. resolve (Err (404::nat))" 404 "\<lambda>n. ''not-found''"
      "\<lambda>v. ''early-fail''" "\<lambda>v (r::nat). probe ''ok''"
      "\<lambda>c. await (probe ()) (\<lambda>v. tryTo (\<lambda>w. (Fault ''error description''
                                    :: ((nat, string) Result, string, string) settled, w)))"
      "''error description''" ?w1,
      OF pre] p p' b pre'
  show ?thesis by simp
qed

section \<open>Properties of the combinators\<close>

text \<open>
  Claim C4. When the evaluation of a flow fails with \<open>e\<close>, the flows that \<open>map(f)\<close>,
  \<open>chain(f)\<close> and \<open>ifSuccess(f)\<close> make of it fail with the same \<open>e\<close>, and in the world the
  receiver's evaluation left: the callback, which may be any function and may change
  the world, has not been called. (The new flow is the object \<open>next_ref w0\<close>; its \<open>run\<close>
  stores the context in its own field before the receiver runs.)
\<close>

theorem failure_short_circuits:
  assumes "run this extras (w\<lparr>contexts := (contexts w)(next_ref w0 := extras)\<rparr>)
             = (Fulfilled (Err e), w')"
  shows "run (fst (map_flow f this w0)) extras w = (Fulfilled (Err e), w')
       \<and> run (fst (chain g this w0)) extras w = (Fulfilled (Err e), w')
       \<and> run (fst (ifSuccess h this w0)) extras w = (Fulfilled (Err e), w')"
  using assms
  by (simp add: map_flow_def chain_def ifSuccess_def run_of_flow tryTo_Err await_Interruption)

text \<open>With callbacks that count their calls: the count stays \<open>0\<close>.\<close>

theorem failure_short_circuits_witness:
  "run failing_flow 7 ((world0 0)\<lparr>next_ref := 1, contexts := (\<lambda>_. 0)(1 := 7)\<rparr>)
     = (Fulfilled (Err ''error''), (world0 0)\<lparr>next_ref := 1, contexts := (\<lambda>_. 0)(1 := 7, 0 := 7)\<rparr>)
   \<and> run (fst (map_flow add10 failing_flow ((world0 0)\<lparr>next_ref := 1\<rparr>))) 7
         ((world0 0)\<lparr>next_ref := 1\<rparr>)
     = (Fulfilled (Err ''error''), (world0 0)\<lparr>next_ref := 1, contexts := (\<lambda>_. 0)(1 := 7, 0 := 7)\<rparr>)
   \<and> run (fst (chain add10_result failing_flow ((world0 0)\<lparr>next_ref := 1\<rparr>))) 7
         ((world0 0)\<lparr>next_ref := 1\<rparr>)
     = (Fulfilled (Err ''error''), (world0 0)\<lparr>next_ref := 1, contexts := (\<lambda>_. 0)(1 := 7, 0 := 7)\<rparr>)
   \<and> run (fst (ifSuccess effect failing_flow ((world0 0)\<lparr>next_ref := 1\<rparr>))) 7
         ((world0 0)\<lparr>next_ref := 1\<rparr>)
     = (Fulfilled (Err ''error''), (world0 0)\<lparr>next_ref := 1, contexts := (\<lambda>_. 0)(1 := 7, 0 := 7)\<rparr>)"
proof -
  let ?w = "(world0 (0::nat))\<lparr>next_ref := 1\<rparr>"
  let ?w' = "(world0 (0::nat))\<lparr>next_ref := 1, contexts := (\<lambda>_. 0)(1 := 7, 0 := 7)\<rparr>"
  have h: "run failing_flow 7 (?w\<lparr>contexts := (contexts ?w)(next_ref ?w := 7)\<rparr>)
             = (Fulfilled (Err ''error''), ?w')"
    by (simp add: failing_flow_def eval_defs)
  have h': "run failing_flow 7 ((world0 0)\<lparr>next_ref := 1, contexts := (\<lambda>_. 0)(1 := 7)\<rparr>)
             = (Fulfilled (Err ''error''), ?w')"
    by (simp add: failing_flow_def eval_defs)
  from failure_short_circuits[OF h, of add10 add10_result effect] h'
  show ?thesis by simp
qed

text \<open>
  Claim C10. \<open>lift\<close> is \<open>from\<close>: for every value the two constructions are the same, and
  every run of the flows they give has the same outcome and leaves the same world.
\<close>

theorem lift_is_from:
  "lift v = from_flow v
   \<and> run (fst (lift v w0)) extras w = run (fst (from_flow v w0)) extras w"
  by (simp add: lift_def)

subsection \<open>The receiver of a combinator\<close>

lemmas combinator_defs = map_flow_def mapError_def chain_def ifSuccess_def ifFailure_def
  orElse_def retryPolicy_def

lemma construction_frame:
  "snd (map_flow f this w) = w\<lparr>next_ref := Suc (next_ref w)\<rparr>"
  "snd (mapError g this w) = w\<lparr>next_ref := Suc (next_ref w)\<rparr>"
  "snd (chain h this w) = w\<lparr>next_ref := Suc (next_ref w)\<rparr>"
  "snd (ifSuccess k this w) = w\<lparr>next_ref := Suc (next_ref w)\<rparr>"
  "snd (ifFailure l this w) = w\<lparr>next_ref := Suc (next_ref w)\<rparr>"
  "snd (orElse alt this w) = w\<lparr>next_ref := Suc (next_ref w)\<rparr>"
  "snd (retryPolicy b cond n s this w) = w\<lparr>next_ref := Suc (next_ref w)\<rparr>"
  by (simp_all add: combinator_defs snd_of_flow)

lemma evaluates_receiver_once:
  "snd (run (fst (map_flow (\<lambda>v c. resolve (f' v c)) this w0)) extras w)
     = snd (run this extras (w\<lparr>contexts := (contexts w)(next_ref w0 := extras)\<rparr>))"
  "snd (run (fst (mapError (\<lambda>e c. resolve (g' e c)) this w0)) extras w)
     = snd (run this extras (w\<lparr>contexts := (contexts w)(next_ref w0 := extras)\<rparr>))"
  "snd (run (fst (chain (\<lambda>v c. resolve (NotFlow (resolve (h' v c)))) this w0)) extras w)
     = snd (run this extras (w\<lparr>contexts := (contexts w)(next_ref w0 := extras)\<rparr>))"
  "snd (run (fst (ifSuccess (\<lambda>v c. resolve ()) this w0)) extras w)
     = snd (run this extras (w\<lparr>contexts := (contexts w)(next_ref w0 := extras)\<rparr>))"
  "snd (run (fst (ifFailure (\<lambda>e c. resolve ()) this w0)) extras w)
     = snd (run this extras (w\<lparr>contexts := (contexts w)(next_ref w0 := extras)\<rparr>))"
  "snd (run (fst (orElse (\<lambda>e c. resolve (NotFlow (resolve (alt' e c)))) this w0)) extras w)
     = snd (run this extras (w\<lparr>contexts := (contexts w)(next_ref w0 := extras)\<rparr>))"
  by (simp_all add: combinator_defs run_of_flow tryTo_def tryTo_polymorphic_def await_def
      unwrap_def resolve_def fail_def split: prod.splits settled.splits Result.splits)

lemma runPromise_retryPolicy:
  "runPromise (fst (retryPolicy beforeRetry condition maxRetries retryStrategy this w0)) extras =
     retry_loop beforeRetry
       (case condition of None \<Rightarrow> (\<lambda>_. True) | Some c \<Rightarrow> c)
       (case maxRetries of None \<Rightarrow> 1 | Some n \<Rightarrow> n)
       (case retryStrategy of None \<Rightarrow> Immediate | Some s \<Rightarrow> s)
       this extras 0"
  by (simp add: retryPolicy_def of_flow_def)

lemma ref_retryPolicy:
  "ref (fst (retryPolicy beforeRetry condition maxRetries retryStrategy this w0)) = next_ref w0"
  by (simp add: retryPolicy_def of_flow_def)

lemma retry_loop_success:
  assumes "run this extras w = (Fulfilled (Ok v), w1)"
  shows "retry_loop b c m s this extras i w = (Fulfilled v, w1)"
  using assms
  by (subst retry_loop.simps) (simp add: await_def resolve_def tryTo_Ok)

lemma construction_same:
  "same_but_identities (next_ref w) (w\<lparr>next_ref := Suc (next_ref w)\<rparr>) w"
  by (simp add: same_but_identities_def)

text \<open>
  The computations that treat alike the worlds that are the same but for the
  identities from \<open>n\<close> on: the helpers do, a sequence of two does when its parts do, and
  so does a \<open>run\<close> when the builder does.
\<close>

lemma alike_resolve: "treats_alike n (resolve v)"
  by (simp add: treats_alike_def resolve_def)

lemma alike_fail: "treats_alike n (fail e)"
  by (simp add: treats_alike_def fail_def)

lemma alike_wait: "treats_alike n (wait ms)"
  by (simp add: treats_alike_def wait_def same_but_identities_def)

lemma alike_user:
  "treats_alike n (\<lambda>w. (outcome (user w), w\<lparr>user := step (user w)\<rparr>))"
  by (simp add: treats_alike_def same_but_identities_def)

lemma alike_await:
  fixes p :: "('a, 'e, 'x, ('c, 'u) world) promise"
  assumes p: "treats_alike n p" and k: "\<And>v. treats_alike n (k v)"
  shows "treats_alike n (await p k)"
  unfolding treats_alike_def
proof (intro allI impI)
  fix w w' :: "('c, 'u) world"
  assume s: "same_but_identities n w w'"
  from p s have f: "fst (p w) = fst (p w')"
    and s': "same_but_identities n (snd (p w)) (snd (p w'))"
    unfolding treats_alike_def by blast+
  obtain r u where pw: "p w = (r, u)" by (cases "p w")
  obtain r' u' where pw': "p w' = (r', u')" by (cases "p w'")
  from f pw pw' have rr: "r' = r" by simp
  from s' pw pw' have su: "same_but_identities n u u'" by simp
  show "fst (await p k w) = fst (await p k w') \<and>
        same_but_identities n (snd (await p k w)) (snd (await p k w'))"
  proof (cases r)
    case (Fulfilled v)
    with k[of v] su pw pw' rr show ?thesis by (simp add: await_def treats_alike_def)
  next
    case (Interruption e)
    with su pw pw' rr show ?thesis by (simp add: await_def)
  next
    case (Fault x)
    with su pw pw' rr show ?thesis by (simp add: await_def)
  qed
qed

lemma alike_tryTo: "treats_alike n p \<Longrightarrow> treats_alike n (tryTo p)"
  unfolding tryTo_def
  by (rule alike_await) (simp_all add: treats_alike_def unwrap_def split: Result.splits)

lemma alike_run:
  fixes this :: "('a, 'e, 'x, 'c, 'u) ResultFlow"
  assumes "treats_alike n (runPromise this c)"
  shows "treats_alike n (run this c)"
  unfolding treats_alike_def
proof (intro allI impI)
  fix w w' :: "('c, 'u) world"
  assume s: "same_but_identities n w w'"
  let ?v = "w\<lparr>contexts := (contexts w)(ref this := c)\<rparr>"
  let ?v' = "w'\<lparr>contexts := (contexts w')(ref this := c)\<rparr>"
  from s have "same_but_identities n ?v ?v'"
    by (simp add: same_but_identities_def)
  with assms have "fst (runPromise this c ?v) = fst (runPromise this c ?v')"
    and "same_but_identities n (snd (runPromise this c ?v)) (snd (runPromise this c ?v'))"
    unfolding treats_alike_def by blast+
  then show "fst (run this c w) = fst (run this c w') \<and>
        same_but_identities n (snd (run this c w)) (snd (run this c w'))"
    by (cases "runPromise this c ?v"; cases "runPromise this c ?v'")
       (auto simp add: run_def split: settled.splits)
qed

lemma alike_of_flow:
  fixes b :: "'c \<Rightarrow> ('a, 'e, 'x, ('c, 'u) world) promise"
  assumes "treats_alike n (b c)"
  shows "treats_alike n (run (fst (of_flow b w0)) c)"
  by (rule alike_run) (use assms in \<open>simp add: of_flow_def\<close>)

lemma alike_from_flow:
  "treats_alike n p \<Longrightarrow> treats_alike n (run (fst (from_flow (Given p) w0)) c)"
  "treats_alike n (t ()) \<Longrightarrow> treats_alike n (run (fst (from_flow (Thunk t) w0)) c)"
  unfolding from_flow_def by (rule alike_of_flow, simp add: alike_tryTo)+

lemma alike_retry_loop:
  fixes this :: "('a, 'e, 'x, 'c, 'u) ResultFlow"
  assumes recv: "treats_alike n (run this c)"
    and before: "\<And>b e j. bo = Some b \<Longrightarrow> treats_alike n (b e j)"
  shows "treats_alike n (retry_loop bo cond m s this c i)"
proof (induction "nat (m - i)" arbitrary: i)
  case 0
  then have "\<not> i < m" by simp
  then have "retry_loop bo cond m s this c i = tryTo (run this c)"
    by (subst retry_loop.simps) simp
  with alike_tryTo[OF recv] show ?case by simp
next
  case (Suc k)
  then have lt: "i < m" and k: "k = nat (m - (i + 1))" by auto
  have b: "treats_alike n (case bo of Some b \<Rightarrow> b e (i + 1) | None \<Rightarrow> resolve ())" for e
    using before by (cases bo) (simp_all add: alike_resolve)
  have d: "treats_alike n (let delay = calculateDelay s (i + 1)
                            in if delay > 0 then wait delay else resolve ())"
    by (simp add: Let_def alike_wait alike_resolve)
  have rest: "treats_alike n
     (case result of
        Err error \<Rightarrow>
          if cond error then
            await (case bo of
                     Some b \<Rightarrow> b error (i + 1)
                   | None \<Rightarrow> resolve ())
              (\<lambda>_. await (let delay = calculateDelay s (i + 1)
                         in if delay > 0 then wait delay else resolve ())
                (\<lambda>_. retry_loop bo cond m s this c (i + 1)))
          else fail error
      | Ok v \<Rightarrow> resolve v)" for result
    using Suc.hyps(1)[OF k]
    by (cases result) (simp_all add: alike_resolve alike_fail alike_await b d)
  show ?case
    using lt
    by (subst retry_loop.simps) (simp add: alike_await[OF recv rest])
qed

text \<open>
  The seven combinators keep the property: when the receiver and the callbacks treat
  these worlds alike, so does the flow that is made. For \<open>chain\<close> and \<open>orElse\<close> the
  callback is taken together with the evaluation of what it returns, which may be a
  flow made on the spot.
\<close>

lemma combinators_alike:
  fixes this :: "('a, 'e, 'x, 'c, 'u) ResultFlow"
  assumes recv: "treats_alike n (run this c)"
  shows "(\<forall>v. treats_alike n (f v c)) \<longrightarrow> treats_alike n (run (fst (map_flow f this w0)) c)"
    and "(\<forall>e. treats_alike n (g e c)) \<longrightarrow> treats_alike n (run (fst (mapError g this w0)) c)"
    and "(\<forall>v. treats_alike n (await (h v c) (\<lambda>r. tryTo_polymorphic r c)))
          \<longrightarrow> treats_alike n (run (fst (chain h this w0)) c)"
    and "(\<forall>v. treats_alike n (k v c)) \<longrightarrow> treats_alike n (run (fst (ifSuccess k this w0)) c)"
    and "(\<forall>e. treats_alike n (l e c)) \<longrightarrow> treats_alike n (run (fst (ifFailure l this w0)) c)"
    and "(\<forall>e. treats_alike n (await (alt e c) (\<lambda>r. tryTo_polymorphic r c)))
          \<longrightarrow> treats_alike n (run (fst (orElse alt this w0)) c)"
    and "(\<forall>b' e j. b = Some b' \<longrightarrow> treats_alike n (b' e j))
          \<longrightarrow> treats_alike n (run (fst (retryPolicy b cond m s this w0)) c)"
proof -
  note t = alike_tryTo[OF recv]
  show "(\<forall>v. treats_alike n (f v c)) \<longrightarrow> treats_alike n (run (fst (map_flow f this w0)) c)"
    unfolding map_flow_def
    by (intro impI alike_of_flow alike_await[OF t]) simp
  show "(\<forall>e. treats_alike n (g e c)) \<longrightarrow> treats_alike n (run (fst (mapError g this w0)) c)"
    unfolding mapError_def
    by (intro impI alike_of_flow alike_await[OF recv])
       (simp add: alike_resolve alike_fail alike_await split: Result.splits)
  show "(\<forall>v. treats_alike n (await (h v c) (\<lambda>r. tryTo_polymorphic r c)))
          \<longrightarrow> treats_alike n (run (fst (chain h this w0)) c)"
    unfolding chain_def
    by (intro impI alike_of_flow alike_await[OF t]) simp
  show "(\<forall>v. treats_alike n (k v c)) \<longrightarrow> treats_alike n (run (fst (ifSuccess k this w0)) c)"
    unfolding ifSuccess_def
    by (intro impI alike_of_flow alike_await[OF t]) (simp add: alike_await alike_resolve)
  show "(\<forall>e. treats_alike n (l e c)) \<longrightarrow> treats_alike n (run (fst (ifFailure l this w0)) c)"
    unfolding ifFailure_def
    by (intro impI alike_of_flow alike_await[OF recv])
       (simp add: alike_resolve alike_fail alike_await split: Result.splits)
  show "(\<forall>e. treats_alike n (await (alt e c) (\<lambda>r. tryTo_polymorphic r c)))
          \<longrightarrow> treats_alike n (run (fst (orElse alt this w0)) c)"
    unfolding orElse_def
    by (intro impI alike_of_flow alike_await[OF recv])
       (simp add: alike_resolve split: Result.splits)
  show "(\<forall>b' e j. b = Some b' \<longrightarrow> treats_alike n (b' e j))
          \<longrightarrow> treats_alike n (run (fst (retryPolicy b cond m s this w0)) c)"
    unfolding retryPolicy_def
    by (intro impI alike_of_flow alike_retry_loop[OF recv]) simp
qed

text \<open>A receiver that treats these worlds alike does so any number of times in a row.\<close>

lemma run_times_same:
  assumes alike: "treats_alike n (run this extras)"
    and same: "same_but_identities n a b"
  shows "fst (run_times k this extras a) = fst (run_times k this extras b)
       \<and> same_but_identities n (snd (run_times k this extras a)) (snd (run_times k this extras b))"
  using same
proof (induction k arbitrary: a b)
  case 0
  then show ?case by simp
next
  case (Suc k)
  from alike Suc.prems have
    outcome: "fst (run this extras a) = fst (run this extras b)"
    and rest: "same_but_identities n (snd (run this extras a)) (snd (run this extras b))"
    unfolding treats_alike_def by blast+
  from Suc.IH[OF rest] outcome show ?case
    by (simp add: split_beta)
qed

text \<open>
  The flow \<open>ResultFlow.from(...).chain(add10)\<close> makes a flow at each evaluation. The
  flow it is chained on counts a call in the user's state; the callback, with the
  evaluation of the flow it returns, treats alike the worlds that are the same but for
  the identities from \<open>n\<close> on, and so does the chained flow.
\<close>

lemma add10_flow_alike:
  "treats_alike n (await (add10_flow v c) (\<lambda>r. tryTo_polymorphic r c))"
  by (auto simp add: treats_alike_def same_but_identities_def add10_flow_def
      tryTo_polymorphic_def eval_defs)

lemma chained_flow_alike: "treats_alike n (run chained_flow c)"
proof -
  have "treats_alike n (probe (Ok 10 :: (nat, string) Result))"
    by (simp add: treats_alike_def same_but_identities_def probe_def)
  then have "treats_alike n (run counted_flow c)"
    unfolding counted_flow_def by (rule alike_from_flow)
  from combinators_alike(3)[OF this, of add10_flow one_flow] add10_flow_alike
  show ?thesis
    by (simp add: chained_flow_def)
qed

text \<open>
  Claim C2. Constructing \<open>c(f)\<close>, for each of the seven combinators and every receiver,
  changes nothing but the identity the next object gets: no field of any flow, no
  timer, nothing of the user's state, so no effect of \<open>f\<close> has fired, and the world is
  the same but for that identity. The identity of an object is nothing code can read;
  so for a receiver whose evaluation treats alike the worlds that are the same but for
  the new identities (it may itself make flows and run them), \<open>f.run()\<close> called \<open>j\<close>
  times in a row after the construction has the outcomes that it has without the
  construction, one by one, and leaves the same world but for the new identities. And
  one evaluation of \<open>c(f)\<close> evaluates \<open>f\<close> once, for every receiver: with callbacks that
  have no effect of their own, the world after it is the world after one evaluation of
  \<open>f\<close> (for \<open>retryPolicy\<close>: when that evaluation succeeds; its failing evaluations are
  counted in claims C3 and C7).
\<close>

theorem combinators_leave_receiver_unaltered:
  "(\<forall>W \<in> {snd (map_flow f this w), snd (mapError g this w), snd (chain h this w),
           snd (ifSuccess k this w), snd (ifFailure l this w), snd (orElse alt this w),
           snd (retryPolicy b cond n s this w)}.
        W = w\<lparr>next_ref := Suc (next_ref w)\<rparr> \<and> same_but_identities (next_ref w) W w)
   \<and> (treats_alike (next_ref w) (run this extras)
      \<longrightarrow> (\<forall>W \<in> {snd (map_flow f this w), snd (mapError g this w), snd (chain h this w),
                  snd (ifSuccess k this w), snd (ifFailure l this w), snd (orElse alt this w),
                  snd (retryPolicy b cond n s this w)}.
              fst (run_times j this extras W) = fst (run_times j this extras w)
            \<and> same_but_identities (next_ref w)
                (snd (run_times j this extras W)) (snd (run_times j this extras w))))
   \<and> (\<forall>W \<in> {snd (run (fst (map_flow (\<lambda>v c. resolve (f' v c)) this w0)) extras w),
             snd (run (fst (mapError (\<lambda>e c. resolve (g' e c)) this w0)) extras w),
             snd (run (fst (chain (\<lambda>v c. resolve (NotFlow (resolve (h' v c)))) this w0)) extras w),
             snd (run (fst (ifSuccess (\<lambda>v c. resolve ()) this w0)) extras w),
             snd (run (fst (ifFailure (\<lambda>e c. resolve ()) this w0)) extras w),
             snd (run (fst (orElse (\<lambda>e c. resolve (NotFlow (resolve (alt' e c)))) this w0)) extras w)}.
        W = snd (run this extras (w\<lparr>contexts := (contexts w)(next_ref w0 := extras)\<rparr>)))
   \<and> (run this extras (w\<lparr>contexts := (contexts w)(next_ref w0 := extras)\<rparr>) = (Fulfilled (Ok v), w1)
        \<longrightarrow> run (fst (retryPolicy b cond n s this w0)) extras w = (Fulfilled (Ok v), w1))"
proof (intro conjI)
  show "\<forall>W \<in> {snd (map_flow f this w), snd (mapError g this w), snd (chain h this w),
           snd (ifSuccess k this w), snd (ifFailure l this w), snd (orElse alt this w),
           snd (retryPolicy b cond n s this w)}.
        W = w\<lparr>next_ref := Suc (next_ref w)\<rparr> \<and> same_but_identities (next_ref w) W w"
    by (simp add: construction_frame construction_same)
  show "treats_alike (next_ref w) (run this extras)
      \<longrightarrow> (\<forall>W \<in> {snd (map_flow f this w), snd (mapError g this w), snd (chain h this w),
                  snd (ifSuccess k this w), snd (ifFailure l this w), snd (orElse alt this w),
                  snd (retryPolicy b cond n s this w)}.
              fst (run_times j this extras W) = fst (run_times j this extras w)
            \<and> same_but_identities (next_ref w)
                (snd (run_times j this extras W)) (snd (run_times j this extras w)))"
  proof
    assume alike: "treats_alike (next_ref w) (run this extras)"
    from run_times_same[OF alike construction_same]
    show "\<forall>W \<in> {snd (map_flow f this w), snd (mapError g this w), snd (chain h this w),
                  snd (ifSuccess k this w), snd (ifFailure l this w), snd (orElse alt this w),
                  snd (retryPolicy b cond n s this w)}.
              fst (run_times j this extras W) = fst (run_times j this extras w)
            \<and> same_but_identities (next_ref w)
                (snd (run_times j this extras W)) (snd (run_times j this extras w))"
      by (simp add: construction_frame)
  qed
  show "\<forall>W \<in> {snd (run (fst (map_flow (\<lambda>v c. resolve (f' v c)) this w0)) extras w),
                 snd (run (fst (mapError (\<lambda>e c. resolve (g' e c)) this w0)) extras w),
                 snd (run (fst (chain (\<lambda>v c. resolve (NotFlow (resolve (h' v c)))) this w0)) extras w),
                 snd (run (fst (ifSuccess (\<lambda>v c. resolve ()) this w0)) extras w),
                 snd (run (fst (ifFailure (\<lambda>e c. resolve ()) this w0)) extras w),
                 snd (run (fst (orElse (\<lambda>e c. resolve (NotFlow (resolve (alt' e c)))) this w0)) extras w)}.
            W = snd (run this extras (w\<lparr>contexts := (contexts w)(next_ref w0 := extras)\<rparr>))"
    by (simp add: evaluates_receiver_once)
  show "run this extras (w\<lparr>contexts := (contexts w)(next_ref w0 := extras)\<rparr>) = (Fulfilled (Ok v), w1)
            \<longrightarrow> run (fst (retryPolicy b cond n s this w0)) extras w = (Fulfilled (Ok v), w1)"
    by (auto intro!: run_Fulfilled simp: runPromise_retryPolicy ref_retryPolicy retry_loop_success)
qed

text \<open>
  The receiver is \<open>ResultFlow.from(...).chain(add10)\<close>, made in a world with no other
  object: it has the identity \<open>1\<close>, the flow it is chained on has \<open>0\<close>, and each of its
  evaluations counts one call and makes a flow. After \<open>ifSuccess\<close> is constructed on it
  the counter is still \<open>0\<close>. A run of the receiver gives \<open>20\<close> and makes the counter
  \<open>1\<close>, before the construction and after it; the flow made during the run has the
  identity \<open>2\<close> before and \<open>3\<close> after. Two runs in a row give \<open>20\<close> twice. A run of a
  mapped or retried flow makes the counter \<open>1\<close> as well.
\<close>

theorem combinators_leave_receiver_unaltered_witness:
  "treats_alike 2 (run chained_flow 7)
   \<and> snd (ifSuccess effect chained_flow two_flows) = two_flows\<lparr>next_ref := 3\<rparr>
   \<and> same_but_identities 2 (snd (ifSuccess effect chained_flow two_flows)) two_flows
   \<and> run chained_flow 7 two_flows
        = (Fulfilled (Ok 20),
           two_flows\<lparr>next_ref := 3, contexts := (\<lambda>_. 0)(1 := 7, 0 := 7, 2 := 7), user := 1\<rparr>)
   \<and> run chained_flow 7 (snd (ifSuccess effect chained_flow two_flows))
        = (Fulfilled (Ok 20),
           two_flows\<lparr>next_ref := 4, contexts := (\<lambda>_. 0)(1 := 7, 0 := 7, 3 := 7), user := 1\<rparr>)
   \<and> fst (run_times 2 chained_flow 7 (snd (ifSuccess effect chained_flow two_flows)))
        = [Fulfilled (Ok 20), Fulfilled (Ok 20)]
   \<and> same_but_identities 2
        (snd (run_times 2 chained_flow 7 (snd (ifSuccess effect chained_flow two_flows))))
        (two_flows\<lparr>next_ref := 4, contexts := (\<lambda>_. 0)(1 := 7, 0 := 7, 2 := 7, 3 := 7),
                   user := 2\<rparr>)
   \<and> snd (run (fst (map_flow (\<lambda>v c. resolve (v + 10)) counted_flow one_flow)) 7 two_flows)
        = two_flows\<lparr>contexts := (\<lambda>_. 0)(1 := 7, 0 := 7), user := 1\<rparr>
   \<and> run (fst (retryPolicy None None (Some 3) None counted_flow one_flow)) 7 two_flows
        = (Fulfilled (Ok 10), two_flows\<lparr>contexts := (\<lambda>_. 0)(1 := 7, 0 := 7), user := 1\<rparr>)"
proof -
  have n: "next_ref two_flows = 2"
    by (simp add: two_flows_def)
  have alike: "treats_alike (next_ref two_flows) (run chained_flow 7)"
    by (rule chained_flow_alike)
  have r: "run chained_flow 7 two_flows
        = (Fulfilled (Ok 20),
           two_flows\<lparr>next_ref := 3, contexts := (\<lambda>_. 0)(1 := 7, 0 := 7, 2 := 7), user := 1\<rparr>)"
    by (simp add: chained_flow_def counted_flow_def add10_flow_def one_flow_def two_flows_def
        tryTo_polymorphic_def eval_defs)
  have r3: "run chained_flow 7 (two_flows\<lparr>next_ref := 3\<rparr>)
        = (Fulfilled (Ok 20),
           two_flows\<lparr>next_ref := 4, contexts := (\<lambda>_. 0)(1 := 7, 0 := 7, 3 := 7), user := 1\<rparr>)"
    by (simp add: chained_flow_def counted_flow_def add10_flow_def one_flow_def two_flows_def
        tryTo_polymorphic_def eval_defs)
  have twice: "run_times 2 chained_flow 7 two_flows
        = ([Fulfilled (Ok 20), Fulfilled (Ok 20)],
           two_flows\<lparr>next_ref := 4, contexts := (\<lambda>_. 0)(1 := 7, 0 := 7, 2 := 7, 3 := 7),
                      user := 2\<rparr>)"
    by (auto simp add: numeral_2_eq_2 chained_flow_def counted_flow_def add10_flow_def
        one_flow_def two_flows_def tryTo_polymorphic_def eval_defs fun_eq_iff)
  have r': "run counted_flow 7 (two_flows\<lparr>contexts := (contexts two_flows)(next_ref one_flow := 7)\<rparr>)
        = (Fulfilled (Ok 10), two_flows\<lparr>contexts := (\<lambda>_. 0)(1 := 7, 0 := 7), user := 1\<rparr>)"
    by (simp add: counted_flow_def one_flow_def two_flows_def eval_defs)
  note frame = combinators_leave_receiver_unaltered[where k = effect and w = two_flows
      and this = chained_flow, THEN conjunct1, THEN bspec]
  note runs = combinators_leave_receiver_unaltered[where k = effect and w = two_flows
      and this = chained_flow and extras = 7 and j = 2,
      THEN conjunct2, THEN conjunct1, THEN mp, OF alike, THEN bspec]
  note once = combinators_leave_receiver_unaltered[where f' = "\<lambda>v c. v + 10",
      THEN conjunct2, THEN conjunct2, THEN conjunct1, THEN bspec]
  note retry = combinators_leave_receiver_unaltered[THEN conjunct2, THEN conjunct2,
      THEN conjunct2, rule_format]
  have "snd (ifSuccess effect chained_flow two_flows)
          = two_flows\<lparr>next_ref := Suc (next_ref two_flows)\<rparr>
      \<and> same_but_identities (next_ref two_flows) (snd (ifSuccess effect chained_flow two_flows))
          two_flows"
    by (rule frame) simp
  then have a: "snd (ifSuccess effect chained_flow two_flows) = two_flows\<lparr>next_ref := 3\<rparr>"
    and a': "same_but_identities 2 (snd (ifSuccess effect chained_flow two_flows)) two_flows"
    by (auto simp add: n)
  have "fst (run_times 2 chained_flow 7 (snd (ifSuccess effect chained_flow two_flows)))
          = fst (run_times 2 chained_flow 7 two_flows)
      \<and> same_but_identities (next_ref two_flows)
          (snd (run_times 2 chained_flow 7 (snd (ifSuccess effect chained_flow two_flows))))
          (snd (run_times 2 chained_flow 7 two_flows))"
    by (rule runs) simp
  then have b: "fst (run_times 2 chained_flow 7 (snd (ifSuccess effect chained_flow two_flows)))
        = [Fulfilled (Ok 20), Fulfilled (Ok 20)]"
    and b': "same_but_identities 2
        (snd (run_times 2 chained_flow 7 (snd (ifSuccess effect chained_flow two_flows))))
        (two_flows\<lparr>next_ref := 4, contexts := (\<lambda>_. 0)(1 := 7, 0 := 7, 2 := 7, 3 := 7),
                   user := 2\<rparr>)"
    by (auto simp add: n twice)
  have "snd (run (fst (map_flow (\<lambda>v c. resolve (v + 10)) counted_flow one_flow)) 7 two_flows)
        = snd (run counted_flow 7
                (two_flows\<lparr>contexts := (contexts two_flows)(next_ref one_flow := 7)\<rparr>))"
    by (rule once) simp
  then have c: "snd (run (fst (map_flow (\<lambda>v c. resolve (v + 10)) counted_flow one_flow)) 7 two_flows)
        = two_flows\<lparr>contexts := (\<lambda>_. 0)(1 := 7, 0 := 7), user := 1\<rparr>"
    using r' by simp
  have d: "run (fst (retryPolicy None None (Some 3) None counted_flow one_flow)) 7 two_flows
        = (Fulfilled (Ok 10), two_flows\<lparr>contexts := (\<lambda>_. 0)(1 := 7, 0 := 7), user := 1\<rparr>)"
    by (rule retry) (rule r')
  from a r3 have r3': "run chained_flow 7 (snd (ifSuccess effect chained_flow two_flows))
        = (Fulfilled (Ok 20),
           two_flows\<lparr>next_ref := 4, contexts := (\<lambda>_. 0)(1 := 7, 0 := 7, 3 := 7), user := 1\<rparr>)"
    by simp
  from alike have alike2: "treats_alike 2 (run chained_flow 7)"
    by (simp add: n)
  from alike2 a a' r r3' b b' c d show ?thesis by simp
qed

section \<open>Properties of the retry policy\<close>

lemma retry_loop_last:
  assumes "\<not> i < m" and "run this extras w = (Fulfilled (Err e), w')"
  shows "retry_loop b c m s this extras i w = (Interruption e, w')"
  using assms by (subst retry_loop.simps) (simp add: tryTo_Err)


lemma retry_loop_retry:
  assumes "i < m" and "run this extras w = (Fulfilled (Err e), w1)" and "c e"
    and "b e (i + 1) w1 = (Fulfilled (), w2)"
  shows "retry_loop (Some b) c m s this extras i w =
         retry_loop (Some b) c m s this extras (i + 1)
           (if 0 < calculateDelay s (i + 1)
            then w2\<lparr>clock := clock w2 + calculateDelay s (i + 1)\<rparr> else w2)"
  using assms
  by (subst retry_loop.simps) (simp add: await_def Let_def wait_def resolve_def)

lemma retry_loop_retry_no_callback:
  assumes "i < m" and "run this extras w = (Fulfilled (Err e), w1)" and "c e"
  shows "retry_loop None c m s this extras i w =
         retry_loop None c m s this extras (i + 1)
           (if 0 < calculateDelay s (i + 1)
            then w1\<lparr>clock := clock w1 + calculateDelay s (i + 1)\<rparr> else w1)"
  using assms
  by (subst retry_loop.simps) (simp add: await_def Let_def wait_def resolve_def)

lemma retry_trace_attempts: "[e. Attempt e \<leftarrow> retry_trace i es] = es"
  by (induction i es rule: retry_trace.induct) simp_all

lemma retry_trace_numbers:
  "[j. BeforeRetry e j \<leftarrow> retry_trace i es] = [i..i + int (length es) - 2]"
proof (induction i es rule: retry_trace.induct)
  case (3 i e e' es)
  have "[i..i + int (length (e # e' # es)) - 2] = i # [i + 1..i + 1 + int (length (e' # es)) - 2]"
    by (subst upto_rec1) simp_all
  with 3 show ?case by simp
qed simp_all

text \<open>
  The loop from the counter \<open>i\<close> on, for a receiver that fails in every world with an
  accepted error: \<open>nat (m - i) + 1\<close> attempts, a \<open>beforeRetry\<close> after each but the last.
\<close>

lemma retry_loop_all_fail:
  fixes obs :: "'u \<Rightarrow> 'e RetryEvent list"
  assumes fails: "\<forall>w. \<exists>e w'. run this extras w = (Fulfilled (Err e), w') \<and> c e
                    \<and> obs (user w') = obs (user w) @ [Attempt e]"
    and before: "\<forall>e i w. \<exists>w'. b e i w = (Fulfilled (), w')
                    \<and> obs (user w') = obs (user w) @ [BeforeRetry e i]"
  shows "\<exists>es w'. length es = nat (m - i) + 1
           \<and> retry_loop (Some b) c m s this extras i w = (Interruption (last es), w')
           \<and> obs (user w') = obs (user w) @ retry_trace (i + 1) es"
proof (induction "nat (m - i)" arbitrary: i w)
  case 0
  then have last: "\<not> i < m" by simp
  from fails obtain e w' where
    r: "run this extras w = (Fulfilled (Err e), w')"
    and o: "obs (user w') = obs (user w) @ [Attempt e]"
    by blast
  have "retry_loop (Some b) c m s this extras i w = (Interruption (last [e]), w')"
    using retry_loop_last[OF last r] by simp
  moreover have "length [e] = nat (m - i) + 1" using last by simp
  moreover have "obs (user w') = obs (user w) @ retry_trace (i + 1) [e]" using o by simp
  ultimately show ?case by blast
next
  case (Suc j)
  then have lt: "i < m" and j: "j = nat (m - (i + 1))" by auto
  from fails obtain e w1 where
    r: "run this extras w = (Fulfilled (Err e), w1)"
    and ce: "c e"
    and o1: "obs (user w1) = obs (user w) @ [Attempt e]"
    by blast
  from before obtain w2 where
    b: "b e (i + 1) w1 = (Fulfilled (), w2)"
    and o2: "obs (user w2) = obs (user w1) @ [BeforeRetry e (i + 1)]"
    by blast
  define w3 where "w3 = (if 0 < calculateDelay s (i + 1)
                          then w2\<lparr>clock := clock w2 + calculateDelay s (i + 1)\<rparr> else w2)"
  have o3: "user w3 = user w2" by (simp add: w3_def)
  from Suc.hyps(1)[OF j, of w3] obtain es w' where
    len: "length es = nat (m - (i + 1)) + 1"
    and loop: "retry_loop (Some b) c m s this extras (i + 1) w3 = (Interruption (last es), w')"
    and o4: "obs (user w') = obs (user w3) @ retry_trace (i + 1 + 1) es"
    by blast
  from len obtain e' es' where es: "es = e' # es'" by (cases es) auto
  have "retry_loop (Some b) c m s this extras i w = (Interruption (last (e # es)), w')"
    using retry_loop_retry[of i m this extras w e w1 c b w2 s, OF lt r ce b] loop es
    by (simp add: w3_def)
  moreover have "length (e # es) = nat (m - i) + 1" using len lt by simp
  moreover have "obs (user w') = obs (user w) @ retry_trace (i + 1) (e # es)"
    using o1 o2 o3 o4 es by simp
  ultimately show ?case by blast
qed

text \<open>
  The same loop when no \<open>beforeRetry\<close> is given: \<open>nat (m - i) + 1\<close> attempts and nothing
  else.
\<close>

lemma retry_loop_all_fail_no_callback:
  fixes obs :: "'u \<Rightarrow> 'e RetryEvent list"
  assumes fails: "\<forall>w. \<exists>e w'. run this extras w = (Fulfilled (Err e), w') \<and> c e
                    \<and> obs (user w') = obs (user w) @ [Attempt e]"
  shows "\<exists>es w'. length es = nat (m - i) + 1
           \<and> retry_loop None c m s this extras i w = (Interruption (last es), w')
           \<and> obs (user w') = obs (user w) @ map Attempt es"
proof (induction "nat (m - i)" arbitrary: i w)
  case 0
  then have last: "\<not> i < m" by simp
  from fails obtain e w' where
    r: "run this extras w = (Fulfilled (Err e), w')"
    and o: "obs (user w') = obs (user w) @ [Attempt e]"
    by blast
  have "retry_loop None c m s this extras i w = (Interruption (last [e]), w')"
    using retry_loop_last[OF last r] by simp
  moreover have "length [e] = nat (m - i) + 1" using last by simp
  moreover have "obs (user w') = obs (user w) @ map Attempt [e]" using o by simp
  ultimately show ?case by blast
next
  case (Suc j)
  then have lt: "i < m" and j: "j = nat (m - (i + 1))" by auto
  from fails obtain e w1 where
    r: "run this extras w = (Fulfilled (Err e), w1)"
    and ce: "c e"
    and o1: "obs (user w1) = obs (user w) @ [Attempt e]"
    by blast
  define w3 where "w3 = (if 0 < calculateDelay s (i + 1)
                          then w1\<lparr>clock := clock w1 + calculateDelay s (i + 1)\<rparr> else w1)"
  have o3: "user w3 = user w1" by (simp add: w3_def)
  from Suc.hyps(1)[OF j, of w3] obtain es w' where
    len: "length es = nat (m - (i + 1)) + 1"
    and loop: "retry_loop None c m s this extras (i + 1) w3 = (Interruption (last es), w')"
    and o4: "obs (user w') = obs (user w3) @ map Attempt es"
    by blast
  from len obtain e' es' where es: "es = e' # es'" by (cases es) auto
  have "retry_loop None c m s this extras i w = (Interruption (last (e # es)), w')"
    using retry_loop_retry_no_callback[of i m this extras w e w1 c s, OF lt r ce] loop es
    by (simp add: w3_def)
  moreover have "length (e # es) = nat (m - i) + 1" using len lt by simp
  moreover have "obs (user w') = obs (user w) @ map Attempt (e # es)"
    using o1 o3 o4 by simp
  ultimately show ?case by blast
qed

text \<open>
  Claim C3. A receiver whose every evaluation fails with an error the condition
  accepts; \<open>obs\<close> is any observer of the user's state for which an evaluation adds
  \<open>Attempt e\<close> and a call of \<open>beforeRetry\<close> adds \<open>BeforeRetry e i\<close>. With \<open>maxRetries = n > 0\<close>
  one run of the retried flow adds the trace of \<open>n + 1\<close> attempts (the errors \<open>es\<close>),
  each but the last followed by \<open>beforeRetry\<close> with the error of that attempt and the
  numbers \<open>1, ..., n\<close> in this order, and its outcome is the failure of the last attempt. With \<open>maxRetries \<le> 0\<close>
  it adds one attempt and nothing else. When no \<open>beforeRetry\<close> is given the attempts are
  the same, \<open>n + 1\<close> and one, and nothing else is added. An absent \<open>maxRetries\<close> is
  \<open>maxRetries = 1\<close>.
\<close>

theorem retry_bounds:
  fixes obs :: "'u \<Rightarrow> 'e RetryEvent list"
  assumes fails: "\<forall>w. \<exists>e w'. run this extras w = (Fulfilled (Err e), w')
        \<and> (case condition of None \<Rightarrow> True | Some c \<Rightarrow> c e)
        \<and> obs (user w') = obs (user w) @ [Attempt e]"
    and before: "\<forall>e i w. \<exists>w'. b e i w = (Fulfilled (), w')
        \<and> obs (user w') = obs (user w) @ [BeforeRetry e i]"
  shows "(0 < n \<longrightarrow>
           (\<exists>es w'. length es = nat n + 1
              \<and> run (fst (retryPolicy (Some b) condition (Some n) strategy this w0)) extras w
                  = (Fulfilled (Err (last es)), w')
              \<and> obs (user w') = obs (user w) @ retry_trace 1 es
              \<and> [e. Attempt e \<leftarrow> retry_trace 1 es] = es
              \<and> [j. BeforeRetry e j \<leftarrow> retry_trace 1 es] = [1..n]))
       \<and> (n \<le> 0 \<longrightarrow>
           (\<exists>e w'. run (fst (retryPolicy (Some b) condition (Some n) strategy this w0)) extras w
                  = (Fulfilled (Err e), w')
              \<and> obs (user w') = obs (user w) @ [Attempt e]))
       \<and> (0 < n \<longrightarrow>
           (\<exists>es w'. length es = nat n + 1
              \<and> run (fst (retryPolicy None condition (Some n) strategy this w0)) extras w
                  = (Fulfilled (Err (last es)), w')
              \<and> obs (user w') = obs (user w) @ map Attempt es))
       \<and> (n \<le> 0 \<longrightarrow>
           (\<exists>e w'. run (fst (retryPolicy None condition (Some n) strategy this w0)) extras w
                  = (Fulfilled (Err e), w')
              \<and> obs (user w') = obs (user w) @ [Attempt e]))
       \<and> retryPolicy beforeRetry condition None strategy this w0
           = retryPolicy beforeRetry condition (Some 1) strategy this w0"
proof -
  define c where "c = (case condition of None \<Rightarrow> (\<lambda>_. True) | Some c \<Rightarrow> c)"
  define s where "s = (case strategy of None \<Rightarrow> Immediate | Some s \<Rightarrow> s)"
  define w1 where "w1 = w\<lparr>contexts := (contexts w)(next_ref w0 := extras)\<rparr>"
  have fails': "\<forall>w. \<exists>e w'. run this extras w = (Fulfilled (Err e), w')
        \<and> c e \<and> obs (user w') = obs (user w) @ [Attempt e]"
    using fails by (cases condition) (simp_all add: c_def)
  from retry_loop_all_fail[OF fails' before, of n 0 s w1] obtain es w' where
    len: "length es = nat n + 1"
    and loop: "retry_loop (Some b) c n s this extras 0 w1 = (Interruption (last es), w')"
    and tr: "obs (user w') = obs (user w1) @ retry_trace 1 es"
    by auto
  have r: "run (fst (retryPolicy (Some b) condition (Some n) strategy this w0)) extras w
            = (Fulfilled (Err (last es)), w')"
    using loop
    by (intro run_Interruption)
       (simp add: runPromise_retryPolicy ref_retryPolicy c_def s_def w1_def)
  have u: "obs (user w') = obs (user w) @ retry_trace 1 es"
    using tr by (simp add: w1_def)
  from retry_loop_all_fail_no_callback[OF fails', of n 0 s w1] obtain es0 w0' where
    len0: "length es0 = nat n + 1"
    and loop0: "retry_loop None c n s this extras 0 w1 = (Interruption (last es0), w0')"
    and tr0: "obs (user w0') = obs (user w1) @ map Attempt es0"
    by auto
  have r0: "run (fst (retryPolicy None condition (Some n) strategy this w0)) extras w
            = (Fulfilled (Err (last es0)), w0')"
    using loop0
    by (intro run_Interruption)
       (simp add: runPromise_retryPolicy ref_retryPolicy c_def s_def w1_def)
  have u0: "obs (user w0') = obs (user w) @ map Attempt es0"
    using tr0 by (simp add: w1_def)
  show ?thesis
  proof (intro conjI impI)
    assume "0 < n"
    with len have "[j. BeforeRetry e j \<leftarrow> retry_trace 1 es] = [1..n]"
      by (simp add: retry_trace_numbers)
    with len r u show "\<exists>es w'. length es = nat n + 1
              \<and> run (fst (retryPolicy (Some b) condition (Some n) strategy this w0)) extras w
                  = (Fulfilled (Err (last es)), w')
              \<and> obs (user w') = obs (user w) @ retry_trace 1 es
              \<and> [e. Attempt e \<leftarrow> retry_trace 1 es] = es
              \<and> [j. BeforeRetry e j \<leftarrow> retry_trace 1 es] = [1..n]"
      using retry_trace_attempts[of 1 es] by blast
  next
    assume "n \<le> 0"
    with len obtain e where es: "es = [e]" by (cases es) auto
    from r u show "\<exists>e w'. run (fst (retryPolicy (Some b) condition (Some n) strategy this w0)) extras w
                  = (Fulfilled (Err e), w')
              \<and> obs (user w') = obs (user w) @ [Attempt e]"
      unfolding es by auto
  next
    assume "0 < n"
    from len0 r0 u0 show "\<exists>es w'. length es = nat n + 1
              \<and> run (fst (retryPolicy None condition (Some n) strategy this w0)) extras w
                  = (Fulfilled (Err (last es)), w')
              \<and> obs (user w') = obs (user w) @ map Attempt es"
      by blast
  next
    assume "n \<le> 0"
    with len0 obtain e where es: "es0 = [e]" by (cases es0) auto
    from r0 u0 show "\<exists>e w'. run (fst (retryPolicy None condition (Some n) strategy this w0)) extras w
                  = (Fulfilled (Err e), w')
              \<and> obs (user w') = obs (user w) @ [Attempt e]"
      unfolding es by auto
  next
    show "retryPolicy beforeRetry condition None strategy this w0
           = retryPolicy beforeRetry condition (Some 1) strategy this w0"
      by (simp add: retryPolicy_def)
  qed
qed

text \<open>
  The mock action that always fails, with \<open>maxRetries\<close> \<open>2\<close> and \<open>-1\<close>, with the
  \<open>beforeRetry\<close> mock and without one, and with no option at all; the user's state is
  the trace itself.
\<close>

theorem retry_bounds_witness:
  "(\<forall>w. \<exists>e w'.
      run (fst (from_flow (Thunk (\<lambda>_. failing_action (\<lambda>_. ''error''))) (world0 []))) 0 w
        = (Fulfilled (Err e), w')
      \<and> user w' = user w @ [Attempt e])
   \<and> (\<forall>e i w. \<exists>w'. beforeRetryMock e i w = (Fulfilled (), w')
      \<and> user w' = user w @ [BeforeRetry e i])
   \<and> (\<exists>es w'. length es = 3
      \<and> run (fst (retryPolicy (Some beforeRetryMock) None (Some 2) None
                 (fst (from_flow (Thunk (\<lambda>_. failing_action (\<lambda>_. ''error''))) (world0 [])))
                 (world0 [])))
            0 (world0 [])
          = (Fulfilled (Err (last es)), w')
      \<and> user w' = retry_trace 1 es
      \<and> [e. Attempt e \<leftarrow> retry_trace 1 es] = es
      \<and> [j. BeforeRetry e j \<leftarrow> retry_trace 1 es] = [1..2])
   \<and> (\<exists>e w'. run (fst (retryPolicy (Some beforeRetryMock) None (Some (- 1)) None
                 (fst (from_flow (Thunk (\<lambda>_. failing_action (\<lambda>_. ''error''))) (world0 [])))
                 (world0 [])))
            0 (world0 [])
          = (Fulfilled (Err e), w')
      \<and> user w' = [Attempt e])
   \<and> (\<exists>es w'. length es = 3
      \<and> run (fst (retryPolicy no_beforeRetry None (Some 2) None
                 (fst (from_flow (Thunk (\<lambda>_. failing_action (\<lambda>_. ''error''))) (world0 [])))
                 (world0 [])))
            0 (world0 [])
          = (Fulfilled (Err (last es)), w')
      \<and> user w' = map Attempt es)
   \<and> (\<exists>e w'. run (fst (retryPolicy no_beforeRetry None (Some (- 1)) None
                 (fst (from_flow (Thunk (\<lambda>_. failing_action (\<lambda>_. ''error''))) (world0 [])))
                 (world0 [])))
            0 (world0 [])
          = (Fulfilled (Err e), w')
      \<and> user w' = [Attempt e])
   \<and> user (snd (run (fst (retryPolicy (Some beforeRetryMock) None (Some 2) None
                 (fst (from_flow (Thunk (\<lambda>_. failing_action (\<lambda>_. ''error''))) (world0 [])))
                 (world0 [])))
            0 (world0 [])))
       = [Attempt ''error'', BeforeRetry ''error'' 1, Attempt ''error'',
          BeforeRetry ''error'' 2, Attempt ''error'']
   \<and> user (snd (run (fst (retryPolicy no_beforeRetry None (Some 2) None
                 (fst (from_flow (Thunk (\<lambda>_. failing_action (\<lambda>_. ''error''))) (world0 [])))
                 (world0 [])))
            0 (world0 [])))
       = [Attempt ''error'', Attempt ''error'', Attempt ''error'']
   \<and> user (snd (run (fst (retryPolicy no_beforeRetry None None None
                 (fst (from_flow (Thunk (\<lambda>_. failing_action (\<lambda>_. ''error''))) (world0 [])))
                 (world0 [])))
            0 (world0 [])))
       = [Attempt ''error'', Attempt ''error'']"
proof -
  let ?recv = "fst (from_flow (Thunk (\<lambda>_. failing_action (\<lambda>_. ''error''))) (world0 []))"
  have h1: "\<forall>w. \<exists>e w'. run ?recv 0 w = (Fulfilled (Err e), w')
      \<and> (case None of None \<Rightarrow> True | Some c \<Rightarrow> c e)
      \<and> (\<lambda>u. u) (user w') = (\<lambda>u. u) (user w) @ [Attempt e]"
    by (simp add: eval_defs)
  have h2: "\<forall>e i w. \<exists>w'. beforeRetryMock e i w = (Fulfilled (), w')
      \<and> (\<lambda>u. u) (user w') = (\<lambda>u. u) (user w) @ [BeforeRetry e i]"
    by (simp add: beforeRetryMock_def)
  have t: "user (snd (run (fst (retryPolicy (Some beforeRetryMock) None (Some 2) None ?recv
                 (world0 []))) 0 (world0 [])))
       = [Attempt ''error'', BeforeRetry ''error'' 1, Attempt ''error'',
          BeforeRetry ''error'' 2, Attempt ''error'']"
    by (simp add: eval_defs)
  have t0: "user (snd (run (fst (retryPolicy no_beforeRetry None (Some 2) None ?recv
                 (world0 []))) 0 (world0 [])))
       = [Attempt ''error'', Attempt ''error'', Attempt ''error'']"
    by (simp add: eval_defs no_beforeRetry_def)
  have t1: "user (snd (run (fst (retryPolicy no_beforeRetry None (Some 1) None ?recv
                 (world0 []))) 0 (world0 [])))
       = [Attempt ''error'', Attempt ''error'']"
    by (simp add: eval_defs no_beforeRetry_def)
  note two = retry_bounds[OF h1 h2, of 2 None "world0 []" "world0 []" no_beforeRetry]
  note none = retry_bounds[OF h1 h2, of "- 1" None "world0 []" "world0 []" no_beforeRetry]
  from two have d: "retryPolicy no_beforeRetry None None None ?recv (world0 [])
                  = retryPolicy no_beforeRetry None (Some 1) None ?recv (world0 [])"
    by blast
  from two none h1 h2 t t0 t1 d
  show ?thesis
    by (simp add: world0_def no_beforeRetry_def)
qed



section \<open>Properties of the periodic execution\<close>

lemma tick_unarmed:
  "intervalId \<notin> armed w \<Longrightarrow> tick ra oi this intervalId w = (Fulfilled (), w)"
  by (simp add: tick_def interval_fires_def)

lemma tick_armed:
  "intervalId \<in> armed w \<Longrightarrow>
   tick ra oi this intervalId w =
     await (run this (contexts w (ref this))) (handle_result ra oi this intervalId) w"
  by (simp add: tick_def interval_fires_def interval_handler_def await_def)

lemma handle_result_Ok: "handle_result ra oi this intervalId (Ok v) w = (Fulfilled (), w)"
  by (simp add: handle_result_def resolve_def)

lemma stop_after_failed_recovery:
  "stop_unless_recovered oi intervalId e (Some (Err e2)) w =
     (case oi of Some callback \<Rightarrow> callback (Failure e (Some e2)) | None \<Rightarrow> resolve ())
       (w\<lparr>armed := armed w - {intervalId}\<rparr>)"
  by (simp add: stop_unless_recovered_def await_def clearInterval_def)

lemma no_stop_after_recovery:
  "stop_unless_recovered oi intervalId e (Some (Ok x)) w = (Fulfilled (), w)"
  by (simp add: stop_unless_recovered_def resolve_def)

lemma handle_result_Err:
  "handle_result ra oi this intervalId (Err e) =
     await (recover ra this e) (stop_unless_recovered oi intervalId e)"
  by (simp add: handle_result_def)

lemma handle_result_no_recovery:
  "handle_result None oi this intervalId (Err e) w =
     (case oi of Some callback \<Rightarrow> callback (Failure e None) | None \<Rightarrow> resolve ())
       (w\<lparr>armed := armed w - {intervalId}\<rparr>)"
  by (simp add: handle_result_def recover_def stop_unless_recovered_def resolve_def await_def
      clearInterval_def)



lemma runPeriodically_world:
  "snd (runPeriodically ra oi interval this w) =
     w\<lparr>armed := insert (next_interval w) (armed w), next_interval := Suc (next_interval w)\<rparr>"
  by (simp add: runPeriodically_def setInterval_def)

lemma contexts_run:
  assumes "\<forall>c w. contexts (snd (runPromise this c w)) (ref this) = contexts w (ref this)"
  shows "contexts (snd (run this c w)) (ref this) = c"
proof -
  let ?w = "w\<lparr>contexts := (contexts w)(ref this := c)\<rparr>"
  have "snd (run this c w) = snd (runPromise this c ?w)"
    by (simp add: run_def split: prod.splits settled.splits)
  moreover have "contexts (snd (runPromise this c ?w)) (ref this) = contexts ?w (ref this)"
    using assms by blast
  ultimately show ?thesis by simp
qed



text \<open>
  Claim C8 says that every tick evaluates the receiver with the context captured when
  the session started, whatever happens afterwards. The code keeps no such copy:
  \<open>runPeriodically\<close> reads no context, every tick reads the field \<open>context\<close> of the flow
  when it fires, and every \<open>run\<close> of the flow writes that field. Below, the flow is run
  with the context \<open>1\<close>, a session is started and ticks, the flow is run with the context
  \<open>2\<close>, and the next tick evaluates the flow with \<open>2\<close>, not with \<open>1\<close>.
\<close>

theorem tick_context_counterexample:
  "contexts (snd (runPeriodically None None 10 (mock_flow always_succeeds)
                (snd (run (mock_flow always_succeeds) 1 ((world0 [])\<lparr>next_ref := 1\<rparr>)))))
       (ref (mock_flow always_succeeds)) = 1
   \<and> user (snd (tick None None (mock_flow always_succeeds) 0
          (snd (run (mock_flow always_succeeds) 2
            (snd (tick None None (mock_flow always_succeeds) 0
              (snd (runPeriodically None None 10 (mock_flow always_succeeds)
                (snd (run (mock_flow always_succeeds) 1 ((world0 [])\<lparr>next_ref := 1\<rparr>)))))))))))
     = [ActionCall 1, ActionCall 1, ActionCall 2, ActionCall 2]"
  by (simp add: eval_defs periodic_defs)

text \<open>
  Claim C8, as the code has it. Starting a session leaves every context field as it
  is. A tick of the armed timer evaluates the receiver with the value its field
  \<open>context\<close> holds when the tick fires. For a flow whose builder does not write that
  field itself, every \<open>run\<close> with a context \<open>c\<close> leaves \<open>c\<close> in the field, so the tick
  that follows a run with \<open>c\<close> (a tick's own run, or a run by anyone else) evaluates the
  receiver with \<open>c\<close>: the ticks use the context of the latest run of the flow. A
  successful tick leaves the field as it found it.
\<close>

theorem tick_uses_latest_context:
  assumes "\<forall>c w. contexts (snd (runPromise this c w)) (ref this) = contexts w (ref this)"
  shows "contexts (snd (runPeriodically ra oi interval this w0)) = contexts w0
       \<and> (intervalId \<in> armed w \<longrightarrow>
            tick ra oi this intervalId w
              = await (run this (contexts w (ref this))) (handle_result ra oi this intervalId) w)
       \<and> contexts (snd (run this c w)) (ref this) = c
       \<and> (intervalId \<in> armed (snd (run this c w)) \<longrightarrow>
            tick ra oi this intervalId (snd (run this c w))
              = await (run this c) (handle_result ra oi this intervalId) (snd (run this c w)))
       \<and> (intervalId \<in> armed w
            \<and> run this (contexts w (ref this)) w = (Fulfilled (Ok v), w1) \<longrightarrow>
            contexts (snd (tick ra oi this intervalId w)) (ref this) = contexts w (ref this))"
proof -
  have "contexts w1 (ref this) = contexts w (ref this)"
    if "run this (contexts w (ref this)) w = (Fulfilled (Ok v), w1)"
    using contexts_run[OF assms, of "contexts w (ref this)" w] that by simp
  then show ?thesis
    using contexts_run[OF assms]
    by (simp add: runPeriodically_world tick_armed await_Fulfilled handle_result_Ok)
qed

text \<open>
  On the session above: after a run of the flow with the context \<open>2\<close> the field holds
  \<open>2\<close>, and the tick that follows evaluates the flow with \<open>2\<close>.
\<close>

theorem tick_uses_latest_context_witness:
  "(\<forall>c w. contexts (snd (runPromise (mock_flow always_succeeds) c w)) (ref (mock_flow always_succeeds))
        = contexts w (ref (mock_flow always_succeeds)))
   \<and> 0 \<in> armed (snd (run (mock_flow always_succeeds) 2 started))
   \<and> contexts (snd (run (mock_flow always_succeeds) 2 started)) (ref (mock_flow always_succeeds)) = 2
   \<and> tick no_recovery (Some mockOnInterruption) (mock_flow always_succeeds) 0
        (snd (run (mock_flow always_succeeds) 2 started))
       = (Fulfilled (), started\<lparr>contexts := (\<lambda>_. 0)(0 := 2),
                               user := [ActionCall 2, ActionCall 2]\<rparr>)
   \<and> 0 \<in> armed started
   \<and> run (mock_flow always_succeeds) (contexts started (ref (mock_flow always_succeeds))) started
       = (Fulfilled (Ok ()), started\<lparr>user := [ActionCall 7]\<rparr>)
   \<and> contexts (snd (tick no_recovery (Some mockOnInterruption) (mock_flow always_succeeds) 0
                      started)) (ref (mock_flow always_succeeds)) = 7"
proof -
  have h: "\<forall>c w. contexts (snd (runPromise (mock_flow always_succeeds) c w))
                   (ref (mock_flow always_succeeds))
        = contexts w (ref (mock_flow always_succeeds))"
    by (simp add: eval_defs periodic_defs)
  have a: "0 \<in> armed (snd (run (mock_flow always_succeeds) 2 started))"
    by (simp add: eval_defs periodic_defs)
  have r: "await (run (mock_flow always_succeeds) 2)
             (handle_result no_recovery (Some mockOnInterruption) (mock_flow always_succeeds) 0)
             (snd (run (mock_flow always_succeeds) 2 started))
           = (Fulfilled (), started\<lparr>contexts := (\<lambda>_. 0)(0 := 2),
                               user := [ActionCall 2, ActionCall 2]\<rparr>)"
    by (simp add: eval_defs periodic_defs no_recovery_def)
  have a': "0 \<in> armed started"
    by (simp add: started_def)
  have ok: "run (mock_flow always_succeeds) (contexts started (ref (mock_flow always_succeeds)))
              started
       = (Fulfilled (Ok ()), started\<lparr>user := [ActionCall 7]\<rparr>)"
    by (simp add: eval_defs periodic_defs)
  have c7: "contexts started (ref (mock_flow always_succeeds)) = 7"
    by (simp add: eval_defs periodic_defs)
  note t = tick_uses_latest_context[OF h, of no_recovery "Some mockOnInterruption" 10 started 0
      started 2 "()" "started\<lparr>user := [ActionCall 7]\<rparr>"]
  from t a r have first: "contexts (snd (run (mock_flow always_succeeds) 2 started))
                            (ref (mock_flow always_succeeds)) = 2
     \<and> tick no_recovery (Some mockOnInterruption) (mock_flow always_succeeds) 0
        (snd (run (mock_flow always_succeeds) 2 started))
       = (Fulfilled (), started\<lparr>contexts := (\<lambda>_. 0)(0 := 2),
                               user := [ActionCall 2, ActionCall 2]\<rparr>)"
    by simp
  from t a' ok have "contexts (snd (tick no_recovery (Some mockOnInterruption)
                       (mock_flow always_succeeds) 0 started)) (ref (mock_flow always_succeeds))
                     = contexts started (ref (mock_flow always_succeeds))"
    by blast
  with c7 have last: "contexts (snd (tick no_recovery (Some mockOnInterruption)
                       (mock_flow always_succeeds) 0 started)) (ref (mock_flow always_succeeds)) = 7"
    by (simp only:)
  from h a first a' ok last show ?thesis by blast
qed

text \<open>
  Claim C9 says that once a session is stopped, a call of \<open>interrupt()\<close> does not call
  \<open>onInterruption\<close> again. The code has no record of the session's state: \<open>interrupt\<close>
  clears the timer and calls \<open>onInterruption({cause: 'aborted'})\<close> every time. Below, a
  tick fails without recovery and \<open>onInterruption\<close> is called with the failure; then
  \<open>interrupt()\<close> is called, and \<open>onInterruption\<close> is called a second time.
\<close>

theorem interrupt_after_stop_counterexample:
  "user (snd (tick None (Some mockOnInterruption) (mock_flow always_fails) 0 started))
     = [ActionCall 7, InterruptionCall (Failure ''error'' None)]
   \<and> user (snd (interrupt (fst (runPeriodically None (Some mockOnInterruption) 10
                               (mock_flow always_fails)
                               ((world0 [])\<lparr>next_ref := 1, contexts := (\<lambda>_. 0)(0 := 7)\<rparr>)))
                (snd (tick None (Some mockOnInterruption) (mock_flow always_fails) 0 started))))
     = [ActionCall 7, InterruptionCall (Failure ''error'' None), InterruptionCall Aborted]"
  by (simp add: eval_defs periodic_defs)

text \<open>
  Claim C9, as the code has it. The session keeps no record of its state, and nothing
  guards \<open>onInterruption\<close>: it is called once by each handler that gets to its failure
  stop, and once by each call of \<open>interrupt()\<close>. The statements are about the parts of
  the handler and hold in every world \<open>w\<close>, so also when the timer has been cleared
  (by \<open>interrupt()\<close> or by another handler) while the handler was waiting for its
  evaluation or for its recovery:
  a timer that is cleared starts no handler;
  a handler whose evaluation succeeded, or whose recovery succeeded, ends there, timer
  and callback untouched;
  a handler whose evaluation failed with no \<open>recoveryAction\<close>, or whose recovery failed,
  clears the timer and calls \<open>onInterruption\<close> once with the failure (nothing, when no
  callback was given);
  every call of \<open>interrupt()\<close> clears the timer, which is idempotent, and calls
  \<open>onInterruption({cause: 'aborted'})\<close> once (nothing, when no callback was given).
\<close>

theorem interruption_once_per_event:
  "(intervalId \<notin> armed w \<longrightarrow> interval_fires intervalId handler w = (Fulfilled (), w))
   \<and> (intervalId \<notin> armed w \<longrightarrow> tick ra oi this intervalId w = (Fulfilled (), w))
   \<and> handle_result ra oi this intervalId (Ok v) w = (Fulfilled (), w)
   \<and> stop_unless_recovered oi intervalId e (Some (Ok x)) w = (Fulfilled (), w)
   \<and> handle_result None oi this intervalId (Err e) w
       = (case oi of Some callback \<Rightarrow> callback (Failure e None) | None \<Rightarrow> resolve ())
           (w\<lparr>armed := armed w - {intervalId}\<rparr>)
   \<and> handle_result (Some action) oi this intervalId (Err e)
       = await (recover (Some action) this e) (stop_unless_recovered oi intervalId e)
   \<and> stop_unless_recovered oi intervalId e (Some (Err e2)) w
       = (case oi of Some callback \<Rightarrow> callback (Failure e (Some e2)) | None \<Rightarrow> resolve ())
           (w\<lparr>armed := armed w - {intervalId}\<rparr>)
   \<and> interrupt (fst (runPeriodically ra oi interval this w0)) w
       = (case oi of Some callback \<Rightarrow> callback Aborted | None \<Rightarrow> resolve ())
           (w\<lparr>armed := armed w - {next_interval w0}\<rparr>)
   \<and> snd (clearInterval intervalId (snd (clearInterval intervalId w)))
       = snd (clearInterval intervalId w)"
proof -
  have "interrupt (fst (runPeriodically ra oi interval this w0)) w
       = (case oi of Some callback \<Rightarrow> callback Aborted | None \<Rightarrow> resolve ())
           (w\<lparr>armed := armed w - {next_interval w0}\<rparr>)"
    by (simp add: runPeriodically_def setInterval_def clearInterval_def await_def)
  moreover have "intervalId \<notin> armed w \<longrightarrow> interval_fires intervalId handler w = (Fulfilled (), w)"
    by (simp add: interval_fires_def)
  moreover have "handle_result (Some action) oi this intervalId (Err e)
       = await (recover (Some action) this e) (stop_unless_recovered oi intervalId e)"
    by (rule handle_result_Err)
  moreover have "snd (clearInterval intervalId (snd (clearInterval intervalId w)))
       = snd (clearInterval intervalId w)"
    by (simp add: clearInterval_def)
  ultimately show ?thesis
    by (simp add: tick_unarmed handle_result_Ok handle_result_no_recovery
        stop_after_failed_recovery no_stop_after_recovery)
qed

text \<open>
  On the session above. A tick after the timer is cleared does nothing. A handler
  evaluates the receiver, which fails; before the handler resumes, \<open>interrupt()\<close> is
  called: it clears the timer and calls \<open>onInterruption\<close>; then the handler resumes, and
  calls \<open>onInterruption\<close> with the failure. A second call of \<open>interrupt()\<close> calls
  \<open>onInterruption\<close> a third time. Without a callback, the same handler clears the timer
  and calls nothing. A handler whose recovery has failed calls \<open>onInterruption\<close> in the
  world it finds, here after \<open>interrupt()\<close>.
\<close>

theorem interruption_once_per_event_witness:
  "0 \<notin> armed (started\<lparr>armed := {}\<rparr>)
   \<and> tick no_recovery (Some mockOnInterruption) (mock_flow always_fails) 0 (started\<lparr>armed := {}\<rparr>)
       = (Fulfilled (), started\<lparr>armed := {}\<rparr>)
   \<and> run (mock_flow always_fails) (contexts started (ref (mock_flow always_fails))) started
       = (Fulfilled (Err ''error''), started\<lparr>user := [ActionCall 7]\<rparr>)
   \<and> interrupt (fst (runPeriodically no_recovery (Some mockOnInterruption) 10
                       (mock_flow always_fails)
                       ((world0 [])\<lparr>next_ref := 1, contexts := (\<lambda>_. 0)(0 := 7)\<rparr>)))
        (started\<lparr>user := [ActionCall 7]\<rparr>)
       = (Fulfilled (), started\<lparr>armed := {},
            user := [ActionCall 7, InterruptionCall Aborted]\<rparr>)
   \<and> handle_result no_recovery (Some mockOnInterruption) (mock_flow always_fails) 0
        (Err ''error'')
        (started\<lparr>armed := {}, user := [ActionCall 7, InterruptionCall Aborted]\<rparr>)
       = (Fulfilled (), started\<lparr>armed := {},
            user := [ActionCall 7, InterruptionCall Aborted,
                     InterruptionCall (Failure ''error'' None)]\<rparr>)
   \<and> interrupt (fst (runPeriodically no_recovery (Some mockOnInterruption) 10
                       (mock_flow always_fails)
                       ((world0 [])\<lparr>next_ref := 1, contexts := (\<lambda>_. 0)(0 := 7)\<rparr>)))
        (started\<lparr>armed := {},
            user := [ActionCall 7, InterruptionCall Aborted,
                     InterruptionCall (Failure ''error'' None)]\<rparr>)
       = (Fulfilled (), started\<lparr>armed := {},
            user := [ActionCall 7, InterruptionCall Aborted,
                     InterruptionCall (Failure ''error'' None), InterruptionCall Aborted]\<rparr>)
   \<and> handle_result no_recovery no_callback (mock_flow always_fails) 0 (Err ''error'')
        (started\<lparr>user := [ActionCall 7]\<rparr>)
       = (Fulfilled (), started\<lparr>armed := {}, user := [ActionCall 7]\<rparr>)
   \<and> stop_unless_recovered (Some mockOnInterruption) 0 ''error''
        (Some (Err ''recovery-error'' :: (unit, string) Result))
        (started\<lparr>armed := {},
            user := [ActionCall 7, RecoveryCall ''error'', InterruptionCall Aborted]\<rparr>)
       = (Fulfilled (), started\<lparr>armed := {},
            user := [ActionCall 7, RecoveryCall ''error'', InterruptionCall Aborted,
                     InterruptionCall (Failure ''error'' (Some ''recovery-error''))]\<rparr>)"
proof -
  have armed: "0 \<notin> armed (started\<lparr>armed := {}\<rparr>)"
    by (simp add: started_def)
  have err: "run (mock_flow always_fails) (contexts started (ref (mock_flow always_fails))) started
              = (Fulfilled (Err ''error''), started\<lparr>user := [ActionCall 7]\<rparr>)"
    by (simp add: eval_defs periodic_defs)
  note idle = interruption_once_per_event[THEN conjunct2, THEN conjunct1, rule_format]
  note stop = interruption_once_per_event[THEN conjunct2, THEN conjunct2, THEN conjunct2,
      THEN conjunct2, THEN conjunct1]
  note stop' = interruption_once_per_event[THEN conjunct2, THEN conjunct2, THEN conjunct2,
      THEN conjunct2, THEN conjunct2, THEN conjunct2, THEN conjunct1]
  note abort = interruption_once_per_event[THEN conjunct2, THEN conjunct2, THEN conjunct2,
      THEN conjunct2, THEN conjunct2, THEN conjunct2, THEN conjunct2, THEN conjunct1]
  have i: "tick no_recovery (Some mockOnInterruption) (mock_flow always_fails) 0
             (started\<lparr>armed := {}\<rparr>)
       = (Fulfilled (), started\<lparr>armed := {}\<rparr>)"
    by (rule idle) (simp add: armed)
  have a1: "interrupt (fst (runPeriodically no_recovery (Some mockOnInterruption) 10
                       (mock_flow always_fails)
                       ((world0 [])\<lparr>next_ref := 1, contexts := (\<lambda>_. 0)(0 := 7)\<rparr>)))
        (started\<lparr>user := [ActionCall 7]\<rparr>)
       = (Fulfilled (), started\<lparr>armed := {},
            user := [ActionCall 7, InterruptionCall Aborted]\<rparr>)"
    by (subst abort) (simp add: mockOnInterruption_def started_def world0_def)
  have s: "handle_result no_recovery (Some mockOnInterruption) (mock_flow always_fails) 0
        (Err ''error'')
        (started\<lparr>armed := {}, user := [ActionCall 7, InterruptionCall Aborted]\<rparr>)
       = (Fulfilled (), started\<lparr>armed := {},
            user := [ActionCall 7, InterruptionCall Aborted,
                     InterruptionCall (Failure ''error'' None)]\<rparr>)"
    unfolding no_recovery_def
    by (subst stop) (simp add: mockOnInterruption_def started_def)
  have a2: "interrupt (fst (runPeriodically no_recovery (Some mockOnInterruption) 10
                       (mock_flow always_fails)
                       ((world0 [])\<lparr>next_ref := 1, contexts := (\<lambda>_. 0)(0 := 7)\<rparr>)))
        (started\<lparr>armed := {},
            user := [ActionCall 7, InterruptionCall Aborted,
                     InterruptionCall (Failure ''error'' None)]\<rparr>)
       = (Fulfilled (), started\<lparr>armed := {},
            user := [ActionCall 7, InterruptionCall Aborted,
                     InterruptionCall (Failure ''error'' None), InterruptionCall Aborted]\<rparr>)"
    by (subst abort) (simp add: mockOnInterruption_def started_def world0_def)
  have s0: "handle_result no_recovery no_callback (mock_flow always_fails) 0 (Err ''error'')
        (started\<lparr>user := [ActionCall 7]\<rparr>)
       = (Fulfilled (), started\<lparr>armed := {}, user := [ActionCall 7]\<rparr>)"
    unfolding no_recovery_def
    by (subst stop) (simp add: no_callback_def resolve_def started_def)
  have s': "stop_unless_recovered (Some mockOnInterruption) 0 ''error''
        (Some (Err ''recovery-error'' :: (unit, string) Result))
        (started\<lparr>armed := {},
            user := [ActionCall 7, RecoveryCall ''error'', InterruptionCall Aborted]\<rparr>)
       = (Fulfilled (), started\<lparr>armed := {},
            user := [ActionCall 7, RecoveryCall ''error'', InterruptionCall Aborted,
                     InterruptionCall (Failure ''error'' (Some ''recovery-error''))]\<rparr>)"
    by (subst stop') (simp add: mockOnInterruption_def started_def)
  from armed err i a1 s a2 s0 s' show ?thesis by simp
qed

end
